theory Spec2Isabelle
  imports Main
begin

unbundle bit_operations_syntax

section \<open>XCP flashing driver (src/flash.py): data model\<close>

text \<open>
  Python integers are modelled as \<open>int\<close>, byte arrays as \<open>int list\<close> whose
  writes are range-checked the way \<^verbatim>\<open>bytearray\<close> item assignment is, and every
  exception the code can raise is a value of \<open>py_exc\<close>.
\<close>

datatype XCPCommands =
    CONNECT | DISCONNECT | GET_COMM_MODE_INFO | GET_ID | SET_MTA | UPLOAD
  | PROGRAM_START | PROGRAM_CLEAR | PROGRAM | PROGRAM_RESET | PROGRAM_NEXT

fun command_value :: "XCPCommands \<Rightarrow> int" where
  "command_value CONNECT = 0xFF"
| "command_value DISCONNECT = 0xFE"
| "command_value GET_COMM_MODE_INFO = 0xFB"
| "command_value GET_ID = 0xFA"
| "command_value SET_MTA = 0xF6"
| "command_value UPLOAD = 0xF5"
| "command_value PROGRAM_START = 0xD2"
| "command_value PROGRAM_CLEAR = 0xD1"
| "command_value PROGRAM = 0xD0"
| "command_value PROGRAM_RESET = 0xCF"
| "command_value PROGRAM_NEXT = 0xCA"

definition SUCCESS :: int where "SUCCESS = 0xFF"
definition ERROR :: int where "ERROR = 0xFE"

text \<open>The table \<^verbatim>\<open>XCPErrors.error_messages\<close>: 18 codes.\<close>

definition error_messages :: "(int \<times> string) list" where
  "error_messages =
    [(0x00, ''Command processor synchronization.''),
     (0x10, ''Command was not executed.''),
     (0x11, ''Command rejected because DAQ is running.''),
     (0x12, ''Command rejected because PGM is running.''),
     (0x20, ''Unknown command or not implemented optional command.''),
     (0x21, ''Command syntax invalid.''),
     (0x22, ''Command syntax valid but command parameter(s) out of range.''),
     (0x23, ''The memory location is write protected.''),
     (0x24, ''The memory location is not accessible.''),
     (0x25, ''Access denied, Seed & Key are required.''),
     (0x26, ''Selected page is not available.''),
     (0x27, ''Selected page mode is not available.''),
     (0x28, ''Selected segment is not valid.''),
     (0x29, ''Sequence error.''),
     (0x2A, ''DAQ configuration is not valid.''),
     (0x30, ''Memory overflow error''),
     (0x31, ''Generic error.''),
     (0x32, ''The slave internal program verify routine detects an error.'')]"

text \<open>
  \<open>py_value\<close> is what \<^verbatim>\<open>err.args[0]\<close> or a dictionary key can be here: the string
  \<^verbatim>\<open>"Timeout"\<close>, a keyword name, or a device error code.
\<close>

datatype py_value = PyStr string | PyInt int

datatype py_exc =
    ConnectionAbortedError py_value
  | ConnectionError string
  | KeyError py_value
  | IndexError
  | ValueError
  | ZeroDivisionError
  | OverflowError
  | AttributeError

record can_msg =
  arbitration_id :: int
  data :: "int list"

datatype console = Line string | ProgressBar int int

text \<open>
  The object's attributes together with its environment. \<open>rx\<close> is the transport's
  behaviour: \<open>rx n\<close> is what the \<open>n\<close>-th call of \<^verbatim>\<open>self._reader.get_message(timeout)\<close>
  returns (\<open>None\<close> when the timeout elapses with no frame). \<open>sent\<close> logs the frames
  given to \<^verbatim>\<open>self._bus.send\<close>, \<open>stdout\<close> what is printed, both oldest first.
  Sending is taken to succeed always, and the length of the timeout plays no role.
\<close>

record xcp =
  tx_id :: int
  rx_id :: int
  conn_mode :: int
  data_len :: int
  max_data_prg :: int
  max_data :: int
  rx :: "nat \<Rightarrow> can_msg option"
  polls :: nat
  sent :: "can_msg list"
  stdout :: "console list"

definition bus_send :: "can_msg \<Rightarrow> xcp \<Rightarrow> xcp" where
  "bus_send m st = st\<lparr>sent := sent st @ [m]\<rparr>"

definition get_message :: "xcp \<Rightarrow> can_msg option \<times> xcp" where
  "get_message st = (rx st (polls st), st\<lparr>polls := Suc (polls st)\<rparr>)"

definition py_print :: "string \<Rightarrow> xcp \<Rightarrow> xcp" where
  "py_print s st = st\<lparr>stdout := stdout st @ [Line s]\<rparr>"

text \<open>
  Reading \<^verbatim>\<open>data[i]\<close> and writing \<^verbatim>\<open>data[i] = v\<close> on a bytearray. The assignment
  checks the value first (ValueError) and the index afterwards (IndexError).
\<close>

definition byte_at :: "int list \<Rightarrow> nat \<Rightarrow> py_exc + int" where
  "byte_at bs i = (if i < length bs then Inr (bs ! i) else Inl IndexError)"

definition set_byte :: "int list \<Rightarrow> nat \<Rightarrow> int \<Rightarrow> py_exc + int list" where
  "set_byte bs i v =
     (if v < 0 \<or> 256 \<le> v then Inl ValueError
      else if i \<ge> length bs then Inl IndexError
      else Inr (bs[i := v]))"

section \<open>Request/response exchange\<close>

text \<open>
  The loop of \<^verbatim>\<open>wait_for_response\<close>. It need not end (a transport that keeps
  delivering unrelated frames keeps it running), so not returning is \<open>None\<close>.
\<close>

partial_function (option) wait_loop ::
  "can_msg option \<Rightarrow> int \<Rightarrow> xcp \<Rightarrow> ((py_exc + can_msg) \<times> xcp) option" where
  "wait_loop msg tries st =
     (if tries = 5 then Some (Inl (ConnectionAbortedError (PyStr ''Timeout'')), st)
      else case get_message st of (received, st1) \<Rightarrow>
        (case received of
           None \<Rightarrow>
             (case msg of
                Some m \<Rightarrow> wait_loop msg (tries + 1) (bus_send m st1)
              | None \<Rightarrow> wait_loop msg tries st1)
         | Some r \<Rightarrow>
             (if arbitration_id r = rx_id st1 then
                (case byte_at (data r) 0 of
                   Inl e \<Rightarrow> Some (Inl e, st1)
                 | Inr b0 \<Rightarrow>
                     if b0 = SUCCESS then Some (Inr r, st1)
                     else if b0 = ERROR then
                       (case byte_at (data r) 1 of
                          Inl e \<Rightarrow> Some (Inl e, st1)
                        | Inr b1 \<Rightarrow> Some (Inl (ConnectionAbortedError (PyInt b1)), st1))
                     else (case msg of
                             Some m \<Rightarrow> wait_loop msg tries (bus_send m st1)
                           | None \<Rightarrow> wait_loop msg tries st1))
              else (case msg of
                      Some m \<Rightarrow> wait_loop msg tries (bus_send m st1)
                    | None \<Rightarrow> wait_loop msg tries st1))))"

declare wait_loop.simps [code]

definition wait_for_response ::
  "can_msg option \<Rightarrow> xcp \<Rightarrow> ((py_exc + can_msg) \<times> xcp) option" where
  "wait_for_response msg st = wait_loop msg 1 st"

text \<open>\<^verbatim>\<open>send_can_msg(msg, wait)\<close>: the response when waited for, \<^verbatim>\<open>None\<close> otherwise.\<close>

definition send_can_msg ::
  "can_msg \<Rightarrow> bool \<Rightarrow> xcp \<Rightarrow> ((py_exc + can_msg option) \<times> xcp) option" where
  "send_can_msg msg wait st =
     (let st1 = bus_send msg st in
      if wait then
        (case wait_for_response (Some msg) st1 of
           None \<Rightarrow> None
         | Some (Inl e, st2) \<Rightarrow> Some (Inl e, st2)
         | Some (Inr r, st2) \<Rightarrow> Some (Inr (Some r), st2))
      else Some (Inr None, st1))"

section \<open>Command encoder: \<^verbatim>\<open>execute\<close>\<close>

text \<open>The keyword arguments of \<^verbatim>\<open>execute\<close>; an absent keyword is \<open>None\<close>.\<close>

record kwargs =
  kw_addr_ext :: "int option"
  kw_addr :: "int option"
  kw_range :: "int option"
  kw_size :: "int option"
  kw_data :: "int list option"

definition no_kwargs :: kwargs where
  "no_kwargs = \<lparr>kw_addr_ext = None, kw_addr = None, kw_range = None,
                 kw_size = None, kw_data = None\<rparr>"

text \<open>\<^verbatim>\<open>kwargs[key]\<close> raises KeyError on an absent keyword.\<close>

definition kw_get :: "string \<Rightarrow> 'a option \<Rightarrow> py_exc + 'a" where
  "kw_get key v = (case v of None \<Rightarrow> Inl (KeyError (PyStr key)) | Some x \<Rightarrow> Inr x)"

text \<open>
  \<^verbatim>\<open>(v & (0xFF000000 >> (8 * (i - 4)))) >> (8 * (7 - i))\<close>, and the loop
  \<^verbatim>\<open>for i in range(4, 8): msg.data[i] = ...\<close> that stores it.
\<close>

definition be_byte :: "int \<Rightarrow> nat \<Rightarrow> int" where
  "be_byte v i = drop_bit (8 * (7 - i)) (v AND drop_bit (8 * (i - 4)) 0xFF000000)"

fun put_be32 :: "int \<Rightarrow> nat list \<Rightarrow> int list \<Rightarrow> py_exc + int list" where
  "put_be32 v [] bs = Inr bs"
| "put_be32 v (i # rest) bs =
     (case set_byte bs i (be_byte v i) of
        Inl e \<Rightarrow> Inl e
      | Inr bs' \<Rightarrow> put_be32 v rest bs')"

text \<open>\<^verbatim>\<open>for data in kwargs["data"]: msg.data[position] = data; position += 1\<close>\<close>

fun put_data :: "int list \<Rightarrow> nat \<Rightarrow> int list \<Rightarrow> py_exc + int list" where
  "put_data [] position bs = Inr bs"
| "put_data (d # ds) position bs =
     (case set_byte bs position d of
        Inl e \<Rightarrow> Inl e
      | Inr bs' \<Rightarrow> put_data ds (position + 1) bs')"

text \<open>
  The frame \<^verbatim>\<open>execute\<close> has built when it reaches \<^verbatim>\<open>send_can_msg\<close>: every branch of
  \<^verbatim>\<open>execute\<close> fills \<^verbatim>\<open>msg\<close> first and sends afterwards, and filling touches nothing
  but \<^verbatim>\<open>msg\<close>, so the filling is one function of the command and its arguments.
\<close>

definition build_msg :: "XCPCommands \<Rightarrow> kwargs \<Rightarrow> xcp \<Rightarrow> py_exc + int list" where
  "build_msg command kw st =
     (case set_byte (replicate 8 0) 0 (command_value command) of
        Inl e \<Rightarrow> Inl e
      | Inr d \<Rightarrow>
          if command = CONNECT then set_byte d 1 (conn_mode st)
          else if command = DISCONNECT then Inr d
          else if command = SET_MTA then
            (case set_byte d 3 (case kw_addr_ext kw of None \<Rightarrow> 0 | Some x \<Rightarrow> x) of
               Inl e \<Rightarrow> Inl e
             | Inr d3 \<Rightarrow>
                 (case kw_get ''addr'' (kw_addr kw) of
                    Inl e \<Rightarrow> Inl e
                  | Inr a \<Rightarrow> put_be32 a [4..<8] d3))
          else if command = PROGRAM_START then Inr d
          else if command = PROGRAM_CLEAR then
            (case kw_get ''range'' (kw_range kw) of
               Inl e \<Rightarrow> Inl e
             | Inr r \<Rightarrow> put_be32 r [4..<8] d)
          else if command = PROGRAM \<or> command = PROGRAM_NEXT then
            (case kw_get ''size'' (kw_size kw) of
               Inl e \<Rightarrow> Inl e
             | Inr sz \<Rightarrow>
                 (case set_byte d 1 sz of
                    Inl e \<Rightarrow> Inl e
                  | Inr d1 \<Rightarrow>
                      (case kw_get ''data'' (kw_data kw) of
                         Inl e \<Rightarrow> Inl e
                       | Inr payload \<Rightarrow> put_data payload 2 d1)))
          else Inr d)"

text \<open>
  \<^verbatim>\<open>execute\<close>. CONNECT and PROGRAM_START read the response and store the negotiated
  values; PROGRAM and PROGRAM_NEXT wait for a response only when
  \<^verbatim>\<open>size <= self._max_data_prg\<close>; a command with no branch sends nothing.
\<close>

definition execute ::
  "XCPCommands \<Rightarrow> kwargs \<Rightarrow> xcp \<Rightarrow> ((py_exc + can_msg option) \<times> xcp) option" where
  "execute command kw st =
     (case build_msg command kw st of
        Inl e \<Rightarrow> Some (Inl e, st)
      | Inr d \<Rightarrow>
          let msg = \<lparr>arbitration_id = tx_id st, data = d\<rparr> in
          if command = CONNECT then
            (case send_can_msg msg True st of
               None \<Rightarrow> None
             | Some (Inl e, st1) \<Rightarrow> Some (Inl e, st1)
             | Some (Inr None, st1) \<Rightarrow> Some (Inl AttributeError, st1)
             | Some (Inr (Some response), st1) \<Rightarrow>
                 (case byte_at (data response) 4 of
                    Inl e \<Rightarrow> Some (Inl e, st1)
                  | Inr b4 \<Rightarrow>
                      let st2 = st1\<lparr>max_data := push_bit 8 b4\<rparr> in
                      (case byte_at (data response) 5 of
                         Inl e \<Rightarrow> Some (Inl e, st2)
                       | Inr b5 \<Rightarrow>
                           Some (Inr (Some response), st2\<lparr>max_data := max_data st2 + b5\<rparr>))))
          else if command = DISCONNECT \<or> command = SET_MTA \<or> command = PROGRAM_CLEAR
                  \<or> command = PROGRAM_RESET then
            send_can_msg msg True st
          else if command = PROGRAM_START then
            (case send_can_msg msg True st of
               None \<Rightarrow> None
             | Some (Inl e, st1) \<Rightarrow> Some (Inl e, st1)
             | Some (Inr None, st1) \<Rightarrow> Some (Inl AttributeError, st1)
             | Some (Inr (Some response), st1) \<Rightarrow>
                 (case byte_at (data response) 3 of
                    Inl e \<Rightarrow> Some (Inl e, st1)
                  | Inr max_dto_prg \<Rightarrow>
                      (case byte_at (data response) 4 of
                         Inl e \<Rightarrow> Some (Inl e, st1)
                       | Inr max_bs \<Rightarrow>
                           Some (Inr (Some response),
                                 st1\<lparr>data_len := (max_dto_prg - 2) * max_bs,
                                     max_data_prg := max_dto_prg - 2\<rparr>))))
          else if command = PROGRAM \<or> command = PROGRAM_NEXT then
            (case kw_get ''size'' (kw_size kw) of
               Inl e \<Rightarrow> Some (Inl e, st)
             | Inr sz \<Rightarrow> send_can_msg msg (sz \<le> max_data_prg st) st)
          else Some (Inr None, st))"

section \<open>Block scheduler: \<^verbatim>\<open>program\<close>\<close>

text \<open>
  An integer converts to a float (an IEEE double) when it is below
  \<open>2^1024 - 2^970\<close> in absolute value; otherwise the conversion raises OverflowError.
  A repetition count of a string has to fit \<^verbatim>\<open>Py_ssize_t\<close> (64 bits); otherwise the
  repetition raises OverflowError.
\<close>

definition float_ok :: "int \<Rightarrow> bool" where
  "float_ok n = (\<bar>n\<bar> < 2 ^ 1024 - 2 ^ 970)"

definition index_ok :: "int \<Rightarrow> bool" where
  "index_ok n = (- (2 ^ 63) \<le> n \<and> n < 2 ^ 63)"

text \<open>
  \<^verbatim>\<open>print_progress_bar(iteration, total)\<close> with the default \<^verbatim>\<open>length = 50\<close>. In
  \<^verbatim>\<open>iteration / float(total)\<close> both numbers are converted to float (OverflowError) and
  then a zero divisor raises ZeroDivisionError; the product with 100 and its formatting
  raise nothing. The bar is \<^verbatim>\<open>fill * filled_length + '-' * (length - filled_length)\<close>
  with \<^verbatim>\<open>filled_length = int(length * iteration // total)\<close>. Nothing is written
  before these computations have succeeded. The text written is determined by
  \<open>iteration\<close> and \<open>total\<close>; the console entry \<open>ProgressBar iteration total\<close> stands for
  it. Allocating the bar is taken to succeed.
\<close>

definition print_progress_bar :: "int \<Rightarrow> int \<Rightarrow> xcp \<Rightarrow> (py_exc + unit) \<times> xcp" where
  "print_progress_bar iteration tot st =
     (if \<not> float_ok tot then (Inl OverflowError, st)
      else if \<not> float_ok iteration then (Inl OverflowError, st)
      else if tot = 0 then (Inl ZeroDivisionError, st)
      else
        let filled_length = (50 * iteration) div tot in
        if \<not> index_ok filled_length then (Inl OverflowError, st)
        else if \<not> index_ok (50 - filled_length) then (Inl OverflowError, st)
        else
          let st1 = st\<lparr>stdout := stdout st @ [ProgressBar iteration tot]\<rparr> in
          (Inr (), if iteration = tot then py_print [] st1 else st1))"

text \<open>
  The slice \<^verbatim>\<open>xs[i:j]\<close>: a negative bound counts from the end, and both bounds are
  clamped to the list.
\<close>

definition py_slice :: "'a list \<Rightarrow> int \<Rightarrow> int \<Rightarrow> 'a list" where
  "py_slice xs i j =
     (let n = int (length xs);
          lo = (if i < 0 then max (i + n) 0 else min i n);
          hi = (if j < 0 then max (j + n) 0 else min j n)
      in take (nat hi - nat lo) (drop (nat lo) xs))"

definition program_kwargs :: "int \<Rightarrow> int list \<Rightarrow> kwargs" where
  "program_kwargs sz payload = no_kwargs\<lparr>kw_size := Some sz, kw_data := Some payload\<rparr>"

text \<open>The inner loop \<^verbatim>\<open>while send_length > 0\<close>; it returns \<open>bytes_send\<close>.\<close>

partial_function (option) program_next_loop ::
  "int list \<Rightarrow> int \<Rightarrow> int \<Rightarrow> xcp \<Rightarrow> ((py_exc + int) \<times> xcp) option" where
  "program_next_loop dat bytes_send send_length st =
     (if send_length > 0 then
        (case execute PROGRAM_NEXT
                (program_kwargs send_length
                   (py_slice dat bytes_send (bytes_send + max_data_prg st))) st of
           None \<Rightarrow> None
         | Some (Inl e, st1) \<Rightarrow> Some (Inl e, st1)
         | Some (Inr _, st1) \<Rightarrow>
             program_next_loop dat
               (bytes_send + min send_length (max_data_prg st1))
               (send_length - max_data_prg st1) st1)
      else Some (Inr bytes_send, st))"

declare program_next_loop.simps [code]

text \<open>The outer loop \<^verbatim>\<open>while bytes_send < len(data)\<close>; it returns \<open>bytes_send\<close>.\<close>

partial_function (option) program_loop ::
  "int list \<Rightarrow> int \<Rightarrow> xcp \<Rightarrow> ((py_exc + int) \<times> xcp) option" where
  "program_loop dat bytes_send st =
     (if bytes_send < int (length dat) then
        (case (if bytes_send mod 10000 \<le> data_len st
               then print_progress_bar bytes_send (int (length dat)) st
               else (Inr (), st)) of
           (Inl e, st1) \<Rightarrow> Some (Inl e, st1)
         | (Inr _, st1) \<Rightarrow>
             let send_length =
                   (if data_len st > int (length dat) - bytes_send
                    then int (length dat) - bytes_send else data_len st)
             in
             (case execute PROGRAM
                     (program_kwargs send_length
                        (py_slice dat bytes_send (bytes_send + max_data_prg st1))) st1 of
                None \<Rightarrow> None
              | Some (Inl e, st2) \<Rightarrow> Some (Inl e, st2)
              | Some (Inr _, st2) \<Rightarrow>
                  (case program_next_loop dat
                          (bytes_send + min (send_length - max_data_prg st2) (max_data_prg st2))
                          (send_length - max_data_prg st2) st2 of
                     None \<Rightarrow> None
                   | Some (Inl e, st3) \<Rightarrow> Some (Inl e, st3)
                   | Some (Inr bytes_send', st3) \<Rightarrow> program_loop dat bytes_send' st3)))
      else Some (Inr bytes_send, st))"

declare program_loop.simps [code]

definition program :: "int list \<Rightarrow> xcp \<Rightarrow> ((py_exc + unit) \<times> xcp) option" where
  "program dat st =
     (case program_loop dat 0 (py_print ''flashing new firmware...'' st) of
        None \<Rightarrow> None
      | Some (Inl e, st1) \<Rightarrow> Some (Inl e, st1)
      | Some (Inr bytes_send, st1) \<Rightarrow>
          (case print_progress_bar bytes_send (int (length dat)) st1 of
             (Inl e, st2) \<Rightarrow> Some (Inl e, st2)
           | (Inr _, st2) \<Rightarrow>
               (case execute PROGRAM_RESET no_kwargs st2 of
                  None \<Rightarrow> None
                | Some (Inl e, st3) \<Rightarrow> Some (Inl e, st3)
                | Some (Inr _, st3) \<Rightarrow> Some (Inr (), st3))))"

section \<open>Session driver\<close>

definition clear :: "int \<Rightarrow> int \<Rightarrow> xcp \<Rightarrow> ((py_exc + unit) \<times> xcp) option" where
  "clear start_addr len st =
     (case execute PROGRAM_START no_kwargs
             (py_print ''erasing device (this may take several minutes)...'' st) of
        None \<Rightarrow> None
      | Some (Inl e, st1) \<Rightarrow> Some (Inl e, st1)
      | Some (Inr _, st1) \<Rightarrow>
          (case execute SET_MTA (no_kwargs\<lparr>kw_addr := Some start_addr\<rparr>) st1 of
             None \<Rightarrow> None
           | Some (Inl e, st2) \<Rightarrow> Some (Inl e, st2)
           | Some (Inr _, st2) \<Rightarrow>
               (case execute PROGRAM_CLEAR (no_kwargs\<lparr>kw_range := Some len\<rparr>) st2 of
                  None \<Rightarrow> None
                | Some (Inl e, st3) \<Rightarrow> Some (Inl e, st3)
                | Some (Inr _, st3) \<Rightarrow> Some (Inr (), st3))))"

definition connect :: "xcp \<Rightarrow> ((py_exc + unit) \<times> xcp) option" where
  "connect st =
     (case execute CONNECT no_kwargs (py_print ''connecting...'' st) of
        None \<Rightarrow> None
      | Some (Inl e, st1) \<Rightarrow> Some (Inl e, st1)
      | Some (Inr None, st1) \<Rightarrow> Some (Inl AttributeError, st1)
      | Some (Inr (Some response), st1) \<Rightarrow>
          (case byte_at (data response) 1 of
             Inl e \<Rightarrow> Some (Inl e, st1)
           | Inr b1 \<Rightarrow>
               if b1 AND 0x10 = 0 then
                 Some (Inl (ConnectionError
                   ''Flash programming not supported by the connected device''), st1)
               else
                 (case byte_at (data response) 2 of
                    Inl e \<Rightarrow> Some (Inl e, st1)
                  | Inr b2 \<Rightarrow>
                      if b2 AND 0x06 \<noteq> 0 then
                        Some (Inl (ConnectionError
                          ''Address granularity > 1 not supported''), st1)
                      else Some (Inr (), st1))))"

definition disconnect :: "xcp \<Rightarrow> ((py_exc + unit) \<times> xcp) option" where
  "disconnect st =
     (case execute DISCONNECT no_kwargs (py_print ''disconnecting..'' st) of
        None \<Rightarrow> None
      | Some (Inl e, st1) \<Rightarrow> Some (Inl e, st1)
      | Some (Inr _, st1) \<Rightarrow> Some (Inr (), st1))"

text \<open>
  The handler \<^verbatim>\<open>except ConnectionAbortedError as err\<close>, written twice in \<^verbatim>\<open>__call__\<close>:
  \<^verbatim>\<open>XCPErrors.error_messages[err.args[0]]\<close> raises KeyError for a code outside the
  table, before anything is printed.
\<close>

definition report_aborted :: "py_value \<Rightarrow> xcp \<Rightarrow> (py_exc + unit) \<times> xcp" where
  "report_aborted a st =
     (if a = PyStr ''Timeout''
      then (Inr (), py_print (CHR 0x0A # ''Connection aborted: Timeout'') st)
      else
        (case a of
           PyInt c \<Rightarrow>
             (case map_of error_messages c of
                None \<Rightarrow> (Inl (KeyError a), st)
              | Some m \<Rightarrow> (Inr (), py_print (CHR 0x0A # ''Connection aborted: '' @ m) st))
         | PyStr _ \<Rightarrow> (Inl (KeyError a), st)))"

text \<open>The body of the \<^verbatim>\<open>try\<close> block: the first exception ends it.\<close>

definition flash_stages :: "int \<Rightarrow> int list \<Rightarrow> xcp \<Rightarrow> ((py_exc + unit) \<times> xcp) option" where
  "flash_stages start_addr dat st =
     (case connect st of
        None \<Rightarrow> None
      | Some (Inl e, st1) \<Rightarrow> Some (Inl e, st1)
      | Some (Inr _, st1) \<Rightarrow>
          (case clear start_addr (int (length dat)) st1 of
             None \<Rightarrow> None
           | Some (Inl e, st2) \<Rightarrow> Some (Inl e, st2)
           | Some (Inr _, st2) \<Rightarrow> program dat st2))"

text \<open>
  The \<^verbatim>\<open>except\<close> clauses of the outer \<^verbatim>\<open>try\<close>: the exception still pending after them
  (\<open>None\<close> when it was handled), and the state.
\<close>

definition flash_except :: "py_exc \<Rightarrow> xcp \<Rightarrow> py_exc option \<times> xcp" where
  "flash_except e st =
     (case e of
        ConnectionAbortedError a \<Rightarrow>
          (case report_aborted a st of
             (Inl e', st1) \<Rightarrow> (Some e', st1)
           | (Inr _, st1) \<Rightarrow> (None, st1))
      | ConnectionError m \<Rightarrow> (None, py_print (CHR 0x0A # ''Connection error: '' @ m) st)
      | _ \<Rightarrow> (Some e, st))"

text \<open>
  The \<^verbatim>\<open>finally\<close> block: \<^verbatim>\<open>disconnect\<close> under its own handler. An exception leaving
  the block replaces the pending one; otherwise the pending one is raised again.
\<close>

definition flash_finally :: "py_exc option \<Rightarrow> xcp \<Rightarrow> ((py_exc + unit) \<times> xcp) option" where
  "flash_finally pending st =
     (case disconnect st of
        None \<Rightarrow> None
      | Some (Inl (ConnectionAbortedError a), st1) \<Rightarrow>
          (case report_aborted a st1 of
             (Inl e', st2) \<Rightarrow> Some (Inl e', st2)
           | (Inr _, st2) \<Rightarrow>
               Some (case pending of None \<Rightarrow> Inr () | Some e \<Rightarrow> Inl e, st2))
      | Some (Inl e, st1) \<Rightarrow> Some (Inl e, st1)
      | Some (Inr _, st1) \<Rightarrow>
          Some (case pending of None \<Rightarrow> Inr () | Some e \<Rightarrow> Inl e, st1))"

text \<open>\<^verbatim>\<open>__call__(start_addr, data)\<close>: \<open>Inl e\<close> is an exception leaving the call.\<close>

definition flash_call :: "int \<Rightarrow> int list \<Rightarrow> xcp \<Rightarrow> ((py_exc + unit) \<times> xcp) option" where
  "flash_call start_addr dat st =
     (case flash_stages start_addr dat st of
        None \<Rightarrow> None
      | Some (Inl e, st1) \<Rightarrow>
          (case flash_except e st1 of (pending, st2) \<Rightarrow> flash_finally pending st2)
      | Some (Inr _, st1) \<Rightarrow> flash_finally None st1)"

section \<open>Sessions and transports used in the examples\<close>

text \<open>
  \<^verbatim>\<open>XCPFlash(tx_id, rx_id, connection_mode)\<close> as \<^verbatim>\<open>__init__\<close> leaves it, on a given
  transport: the class attributes \<^verbatim>\<open>_data_len = 0\<close>, \<^verbatim>\<open>_max_data_prg = 0\<close> and
  \<^verbatim>\<open>_max_data = 8\<close> are still in place, nothing has been sent or printed.
\<close>

definition XCPFlash :: "int \<Rightarrow> int \<Rightarrow> int \<Rightarrow> (nat \<Rightarrow> can_msg option) \<Rightarrow> xcp" where
  "XCPFlash tx_ident rx_ident connection_mode transport =
     \<lparr>tx_id = tx_ident, rx_id = rx_ident, conn_mode = connection_mode,
      data_len = 0, max_data_prg = 0, max_data = 8,
      rx = transport, polls = 0, sent = [], stdout = []\<rparr>"

text \<open>A transport on which no frame ever arrives.\<close>

definition silent :: "nat \<Rightarrow> can_msg option" where
  "silent n = None"

text \<open>A transport that delivers the given frames, one per poll, and is silent afterwards.\<close>

definition replies :: "can_msg list \<Rightarrow> nat \<Rightarrow> can_msg option" where
  "replies ms n = (if n < length ms then Some (ms ! n) else None)"

text \<open>A transport that answers every poll with the same frame.\<close>

definition always :: "can_msg \<Rightarrow> nat \<Rightarrow> can_msg option" where
  "always m n = Some m"

text \<open>
  A positive response from identifier 2 that passes the checks of \<^verbatim>\<open>connect\<close>
  (byte 1 has the programming bit, byte 2 no granularity bits) and, read as the
  response to PROGRAM_START, advertises \<^verbatim>\<open>MAX_DTO_PGM = 8\<close> and \<^verbatim>\<open>MAX_BS = 2\<close>.
\<close>

definition ack :: can_msg where
  "ack = \<lparr>arbitration_id = 2, data = [0xFF, 0x10, 0, 8, 2, 8, 0, 0]\<rparr>"

text \<open>A firmware image of 13 bytes.\<close>

definition firmware13 :: "int list" where
  "firmware13 = [1, 2, 3, 4, 5, 6, 7, 8, 9, 10, 11, 12, 13]"

text \<open>The number of times \<^verbatim>\<open>disconnect\<close> has announced itself on the console.\<close>

definition disconnect_calls :: "xcp \<Rightarrow> nat" where
  "disconnect_calls st = length (filter (\<lambda>c. c = Line ''disconnecting..'') (stdout st))"

text \<open>
  The frames handed to the bus between two states of a run, oldest first.
\<close>

definition new_frames :: "xcp \<Rightarrow> xcp \<Rightarrow> can_msg list" where
  "new_frames st st' = drop (length (sent st)) (sent st')"

text \<open>
  A PROGRAM or PROGRAM_NEXT frame sized within a payload capacity and a unit length:
  eight bytes, byte 1 at most the unit length, and nothing but zero after the first
  \<open>capacity\<close> payload bytes.
\<close>

definition sized_by :: "int \<Rightarrow> int \<Rightarrow> can_msg \<Rightarrow> bool" where
  "sized_by capacity unit_len f =
     (length (data f) = 8
      \<and> (data f ! 0 = 0xD0 \<or> data f ! 0 = 0xCA)
      \<and> data f ! 1 \<le> unit_len
      \<and> drop (2 + nat capacity) (data f) = replicate (6 - nat capacity) 0)"

section \<open>Frame layout\<close>

lemma byte_extract: "drop_bit k ((v::int) AND push_bit k (mask 8)) = v div 2 ^ k mod 256"
proof -
  have "drop_bit k (v AND push_bit k (mask 8)) = take_bit 8 (drop_bit k v)"
    by (rule bit_eqI) (auto simp add: bit_simps)
  then show ?thesis
    by (simp add: take_bit_eq_mod drop_bit_eq_div)
qed

lemma be_byte_4: "be_byte v 4 = v div 2 ^ 24 mod 256"
  using byte_extract [of 24 v]
  by (simp add: be_byte_def push_bit_eq_mult mask_eq_exp_minus_1)

lemma be_byte_5: "be_byte v 5 = v div 2 ^ 16 mod 256"
  using byte_extract [of 16 v]
  by (simp add: be_byte_def push_bit_eq_mult mask_eq_exp_minus_1 drop_bit_eq_div)

lemma be_byte_6: "be_byte v 6 = v div 2 ^ 8 mod 256"
  using byte_extract [of 8 v]
  by (simp add: be_byte_def push_bit_eq_mult mask_eq_exp_minus_1 drop_bit_eq_div)

lemma be_byte_7: "be_byte v 7 = v mod 256"
  using byte_extract [of 0 v]
  by (simp add: be_byte_def push_bit_eq_mult mask_eq_exp_minus_1 drop_bit_eq_div)

lemma upt_4_8: "[4..<8] = [4, 5, 6, 7]"
  by (simp add: upt_rec)

lemma mod_256_range: "\<not> (x::int) mod 256 < 0" "\<not> 256 \<le> (x::int) mod 256"
  by (simp_all add: not_less not_le)

lemma put_be32_frame:
  "put_be32 v [4, 5, 6, 7] [b0, b1, b2, b3, b4, b5, b6, b7] =
     Inr [b0, b1, b2, b3,
          v div 2 ^ 24 mod 256, v div 2 ^ 16 mod 256, v div 2 ^ 8 mod 256, v mod 256]"
  by (simp add: set_byte_def be_byte_4 be_byte_5 be_byte_6 be_byte_7 mod_256_range)

lemma set_byte_ok:
  "i < length bs \<Longrightarrow> 0 \<le> v \<Longrightarrow> v < 256 \<Longrightarrow> set_byte bs i v = Inr (bs[i := v])"
  by (simp add: set_byte_def)

lemma replicate_8: "replicate 8 (0::int) = [0, 0, 0, 0, 0, 0, 0, 0]"
  by (simp add: numeral_eq_Suc)

text \<open>
  C9: for every address extension that fits a byte and every address,
  \<^verbatim>\<open>execute(SET_MTA)\<close> builds the frame whose byte 0 is the command code 0xF6, bytes 1
  and 2 are zero, byte 3 is the address extension and bytes 4 to 7 are the address,
  most significant byte first; for every range length \<^verbatim>\<open>execute(PROGRAM_CLEAR)\<close>
  builds the frame whose byte 0 is 0xD1, bytes 1 to 3 are zero and bytes 4 to 7 are
  the length, most significant byte first.
\<close>

theorem set_mta_program_clear_frames:
  assumes "0 \<le> addr_ext" and "addr_ext < 256"
  shows "build_msg SET_MTA (no_kwargs\<lparr>kw_addr_ext := Some addr_ext, kw_addr := Some addr\<rparr>) st =
           Inr [0xF6, 0, 0, addr_ext,
                addr div 2 ^ 24 mod 256, addr div 2 ^ 16 mod 256,
                addr div 2 ^ 8 mod 256, addr mod 256]
       \<and> build_msg PROGRAM_CLEAR (no_kwargs\<lparr>kw_range := Some len\<rparr>) st =
           Inr [0xD1, 0, 0, 0,
                len div 2 ^ 24 mod 256, len div 2 ^ 16 mod 256,
                len div 2 ^ 8 mod 256, len mod 256]"
  using assms
  by (simp add: build_msg_def set_byte_ok replicate_8 kw_get_def no_kwargs_def
        put_be32_frame upt_4_8
        del: put_be32.simps upt_rec_numeral)

theorem set_mta_program_clear_frames_witness:
  "(0::int) \<le> 1 \<and> (1::int) < 256
   \<and> build_msg SET_MTA (no_kwargs\<lparr>kw_addr_ext := Some 1, kw_addr := Some 0x08004000\<rparr>)
        (XCPFlash 1 2 0 silent) = Inr [0xF6, 0, 0, 1, 0x08, 0x00, 0x40, 0x00]
   \<and> build_msg PROGRAM_CLEAR (no_kwargs\<lparr>kw_range := Some 0x00012345\<rparr>)
        (XCPFlash 1 2 0 silent) = Inr [0xD1, 0, 0, 0, 0x00, 0x01, 0x23, 0x45]"
  using set_mta_program_clear_frames
          [where addr_ext = 1 and addr = "0x08004000" and len = "0x00012345"
             and st = "XCPFlash 1 2 0 silent"]
  by simp

lemma put_data_ok:
  "pos + length ds \<le> length bs \<Longrightarrow> \<forall>b\<in>set ds. 0 \<le> b \<and> b < 256 \<Longrightarrow>
   put_data ds pos bs = Inr (take pos bs @ ds @ drop (pos + length ds) bs)"
proof (induction ds arbitrary: pos bs)
  case Nil
  then show ?case by simp
next
  case (Cons d ds)
  have step: "set_byte bs pos d = Inr (bs[pos := d])"
    using Cons.prems by (simp add: set_byte_ok)
  have "put_data ds (pos + 1) (bs[pos := d]) =
          Inr (take (pos + 1) (bs[pos := d]) @ ds @ drop (pos + 1 + length ds) (bs[pos := d]))"
    using Cons.prems by (intro Cons.IH) simp_all
  moreover have "take (pos + 1) (bs[pos := d]) = take pos bs @ [d]"
    using Cons.prems by (simp add: take_Suc_conv_app_nth)
  moreover have "drop (pos + 1 + length ds) (bs[pos := d]) = drop (pos + 1 + length ds) bs"
    by simp
  ultimately show ?case
    using step by simp
qed

text \<open>
  C6, as amended: in every PROGRAM or PROGRAM_NEXT frame built by \<^verbatim>\<open>execute\<close>, byte 0
  is the command code, byte 1 is the \<^verbatim>\<open>size\<close> argument (any value from 0 to 255: it
  is the length still to come in the logical unit, not the number of payload bytes in
  this frame, and may exceed 6), and bytes 2 onward carry the payload bytes (at most
  6 of them) left-packed, the rest of the frame staying zero.
\<close>

theorem program_frame_layout:
  assumes "command = PROGRAM \<or> command = PROGRAM_NEXT"
    and "0 \<le> sz" and "sz < 256"
    and "length payload \<le> 6"
    and "\<forall>b\<in>set payload. 0 \<le> b \<and> b < 256"
  shows "build_msg command (program_kwargs sz payload) st =
           Inr ([command_value command, sz] @ payload @ replicate (6 - length payload) 0)"
proof -
  have "put_data payload 2 [command_value command, sz, 0, 0, 0, 0, 0, 0] =
          Inr (take 2 [command_value command, sz, 0, 0, 0, 0, 0, 0] @ payload
               @ drop (2 + length payload) [command_value command, sz, 0, 0, 0, 0, 0, 0])"
    using assms by (intro put_data_ok) simp_all
  moreover have "drop (2 + length payload) [command_value command, sz, 0, 0, 0, 0, 0, 0] =
                   replicate (6 - length payload) (0::int)"
  proof -
    have "[command_value command, sz, 0, 0, 0, 0, 0, 0] =
            [command_value command, sz] @ replicate 6 (0::int)"
      by (simp add: numeral_eq_Suc)
    then show ?thesis
      by (simp only: drop_append drop_replicate) simp
  qed
  moreover have "set_byte [0, 0, 0, 0, 0, 0, 0, 0] 0 (command_value command) =
                   Inr [command_value command, 0, 0, 0, 0, 0, 0, 0]"
    by (cases command) (simp_all add: set_byte_def)
  ultimately show ?thesis
    using assms
    by (auto simp add: build_msg_def replicate_8 set_byte_ok kw_get_def program_kwargs_def
          no_kwargs_def)
qed

theorem program_frame_layout_witness:
  "(PROGRAM_NEXT = PROGRAM \<or> PROGRAM_NEXT = PROGRAM_NEXT)
   \<and> (0::int) \<le> 3 \<and> (3::int) < 256 \<and> length [7, 8, 9 :: int] \<le> 6
   \<and> build_msg PROGRAM_NEXT (program_kwargs 3 [7, 8, 9]) (XCPFlash 1 2 0 silent) =
        Inr [0xCA, 3, 7, 8, 9, 0, 0, 0]"
  using program_frame_layout
          [where command = PROGRAM_NEXT and sz = 3 and payload = "[7, 8, 9]"
             and st = "XCPFlash 1 2 0 silent"]
  by (simp add: numeral_eq_Suc)

text \<open>
  C6 as stated fails: the first frame of a 12-byte unit carries 6 payload bytes and
  has byte 1 = 12, which is neither the payload length of the frame nor at most 6.
\<close>

theorem program_frame_size_counterexample:
  "build_msg PROGRAM (program_kwargs 12 [1, 2, 3, 4, 5, 6]) (XCPFlash 1 2 0 silent) =
     Inr [0xD0, 12, 1, 2, 3, 4, 5, 6]
   \<and> (12::int) \<noteq> int (length [1, 2, 3, 4, 5, 6 :: int]) \<and> \<not> (12::int) \<le> 6"
  by (simp add: build_msg_def replicate_8 set_byte_def kw_get_def program_kwargs_def
        no_kwargs_def)

section \<open>Properties of the exchange\<close>

text \<open>The wait touches nothing but the poll counter and the log of sent frames.\<close>

lemma wait_loop_frame_aux:
  assumes "wait_loop msg tries st = Some y"
  shows "snd y = st\<lparr>polls := polls (snd y), sent := sent (snd y)\<rparr>"
proof (rule wait_loop.raw_induct
         [where P = "\<lambda>msg tries st y.
                       snd y = st\<lparr>polls := polls (snd y), sent := sent (snd y)\<rparr>",
          OF _ assms], goal_cases)
  case (1 f msg tries st y)
  from 1(2) show ?case
    by (auto simp: get_message_def bus_send_def dest!: 1(1)
          split: if_splits option.splits sum.splits)
qed

lemma wait_loop_frame:
  "wait_loop msg tries st = Some (r, st') \<Longrightarrow>
     st' = st\<lparr>polls := polls st', sent := sent st'\<rparr>"
  using wait_loop_frame_aux [of msg tries st "(r, st')"] by simp

text \<open>
  What the wait can end with: a frame from the receive identifier whose byte 0 is the
  SUCCESS marker, or an IndexError or ConnectionAbortedError.
\<close>

lemma wait_loop_result_aux:
  assumes "wait_loop msg tries st = Some y"
  shows "case fst y of
           Inr r \<Rightarrow> arbitration_id r = rx_id st \<and> byte_at (data r) 0 = Inr SUCCESS
         | Inl e \<Rightarrow> e = IndexError \<or> (\<exists>a. e = ConnectionAbortedError a)"
proof (rule wait_loop.raw_induct
         [where P = "\<lambda>msg tries st y. case fst y of
            Inr r \<Rightarrow> arbitration_id r = rx_id st \<and> byte_at (data r) 0 = Inr SUCCESS
          | Inl e \<Rightarrow> e = IndexError \<or> (\<exists>a. e = ConnectionAbortedError a)",
          OF _ assms], goal_cases)
  case (1 f msg tries st y)
  from 1(2) show ?case
    by (auto simp: get_message_def bus_send_def byte_at_def dest!: 1(1)
          split: if_splits option.splits sum.splits)
qed

lemma wait_loop_success:
  "wait_loop msg tries st = Some (Inr r, st') \<Longrightarrow>
     arbitration_id r = rx_id st \<and> byte_at (data r) 0 = Inr SUCCESS"
  using wait_loop_result_aux [of msg tries st "(Inr r, st')"] by simp

lemma wait_loop_error:
  "wait_loop msg tries st = Some (Inl e, st') \<Longrightarrow>
     e = IndexError \<or> (\<exists>a. e = ConnectionAbortedError a)"
  using wait_loop_result_aux [of msg tries st "(Inl e, st')"] by simp

lemma send_can_msg_frame:
  assumes "send_can_msg m w st = Some (r, st')"
  shows "st' = st\<lparr>polls := polls st', sent := sent st'\<rparr>"
proof (cases w)
  case True
  with assms obtain r2 where "wait_loop (Some m) 1 (bus_send m st) = Some (r2, st')"
    by (auto simp: send_can_msg_def wait_for_response_def Let_def
          split: option.splits sum.splits)
  from wait_loop_frame [OF this] show ?thesis
    by (simp add: bus_send_def)
next
  case False
  with assms show ?thesis
    by (auto simp: send_can_msg_def bus_send_def)
qed

lemma send_can_msg_fields:
  assumes "send_can_msg m w st = Some (r, st')"
  shows "data_len st' = data_len st" and "max_data_prg st' = max_data_prg st"
    and "max_data st' = max_data st" and "stdout st' = stdout st"
    and "rx st' = rx st" and "rx_id st' = rx_id st" and "tx_id st' = tx_id st"
    and "conn_mode st' = conn_mode st"
  by (subst send_can_msg_frame [OF assms], simp)+

text \<open>
  C4, as amended: a reply that carries the session's receive identifier but a byte 0
  that is neither the SUCCESS nor the ERROR marker never makes the exchange fail with
  ProtocolViolation (a ConnectionError): no exchange has that outcome. Such a reply is
  never treated as a success: the exchange never returns it.
\<close>

theorem unknown_discriminator_not_violation:
  assumes "data r = b0 # bs" and "b0 \<noteq> SUCCESS" and "b0 \<noteq> ERROR"
  shows "(\<forall>st'. send_can_msg m w st \<noteq> Some (Inr (Some r), st'))
       \<and> (\<forall>why st'. send_can_msg m w st \<noteq> Some (Inl (ConnectionError why), st'))"
proof (intro conjI allI notI)
  fix st'
  assume run: "send_can_msg m w st = Some (Inr (Some r), st')"
  then have "wait_loop (Some m) 1 (bus_send m st) = Some (Inr r, st')"
    by (auto simp: send_can_msg_def wait_for_response_def Let_def
          split: if_splits option.splits sum.splits)
  from wait_loop_success [OF this] have "byte_at (data r) 0 = Inr SUCCESS"
    by simp
  with assms show False
    by (simp add: byte_at_def)
next
  fix why st'
  assume run: "send_can_msg m w st = Some (Inl (ConnectionError why), st')"
  then have "wait_loop (Some m) 1 (bus_send m st) = Some (Inl (ConnectionError why), st')"
    by (auto simp: send_can_msg_def wait_for_response_def Let_def
          split: if_splits option.splits sum.splits)
  from wait_loop_error [OF this] show False
    by simp
qed

theorem unknown_discriminator_not_violation_witness:
  "(\<forall>st'. send_can_msg \<lparr>arbitration_id = 1, data = [0xFE, 0, 0, 0, 0, 0, 0, 0]\<rparr> True
            (XCPFlash 1 2 0
               (replies [\<lparr>arbitration_id = 2, data = [0, 0, 0, 0, 0, 0, 0, 0]\<rparr>, ack])) \<noteq>
          Some (Inr (Some \<lparr>arbitration_id = 2, data = [0, 0, 0, 0, 0, 0, 0, 0]\<rparr>), st'))
   \<and> (\<forall>why st'. send_can_msg \<lparr>arbitration_id = 1, data = [0xFE, 0, 0, 0, 0, 0, 0, 0]\<rparr> True
            (XCPFlash 1 2 0
               (replies [\<lparr>arbitration_id = 2, data = [0, 0, 0, 0, 0, 0, 0, 0]\<rparr>, ack])) \<noteq>
          Some (Inl (ConnectionError why), st'))"
  using unknown_discriminator_not_violation
          [where r = "\<lparr>arbitration_id = 2, data = [0, 0, 0, 0, 0, 0, 0, 0]\<rparr>"
             and ?b0.0 = 0 and bs = "[0, 0, 0, 0, 0, 0, 0]"
             and m = "\<lparr>arbitration_id = 1, data = [0xFE, 0, 0, 0, 0, 0, 0, 0]\<rparr>"
             and w = True
             and st = "XCPFlash 1 2 0
                         (replies [\<lparr>arbitration_id = 2, data = [0, 0, 0, 0, 0, 0, 0, 0]\<rparr>, ack])"]
  by (simp add: SUCCESS_def ERROR_def)

text \<open>
  C4 as stated fails: the exchange that first receives a frame from the receive
  identifier with byte 0 = 0 sends the request a second time and then returns the
  positive response that follows; no ProtocolViolation is raised.
\<close>

theorem unknown_discriminator_counterexample:
  "(case send_can_msg \<lparr>arbitration_id = 1, data = [0xFE, 0, 0, 0, 0, 0, 0, 0]\<rparr> True
           (XCPFlash 1 2 0
              (replies [\<lparr>arbitration_id = 2, data = [0, 0, 0, 0, 0, 0, 0, 0]\<rparr>, ack])) of
      Some (res, st) \<Rightarrow> res = Inr (Some ack) \<and> length (sent st) = 2 \<and> polls st = 2
    | None \<Rightarrow> False)"
  by code_simp

text \<open>
  The two ways of never receiving a reply. On a transport that stays silent the
  exchange sends five times and ends with Timeout after four polls. On a transport
  that only delivers frames from other identifiers the wait never ends.
\<close>

lemma silent_exchange_five_sends:
  assumes "\<And>n. polls st \<le> n \<Longrightarrow> rx st n = None"
  shows "send_can_msg m True st =
           Some (Inl (ConnectionAbortedError (PyStr ''Timeout'')),
                 st\<lparr>polls := polls st + 4, sent := sent st @ [m, m, m, m, m]\<rparr>)"
  using assms
  by (simp add: send_can_msg_def wait_for_response_def wait_loop.simps get_message_def
        bus_send_def)

lemma stray_frames_never_time_out:
  assumes "tries \<noteq> 5"
    and "\<And>n. \<exists>r. rx st n = Some r \<and> arbitration_id r \<noteq> rx_id st"
  shows "wait_loop msg tries st = None"
proof (rule ccontr)
  assume "wait_loop msg tries st \<noteq> None"
  then obtain y where run: "wait_loop msg tries st = Some y"
    by auto
  have "\<not> (tries \<noteq> 5 \<and> (\<forall>n. \<exists>r. rx st n = Some r \<and> arbitration_id r \<noteq> rx_id st))"
  proof (rule wait_loop.raw_induct
           [where P = "\<lambda>msg tries st y.
                         \<not> (tries \<noteq> 5
                            \<and> (\<forall>n. \<exists>r. rx st n = Some r \<and> arbitration_id r \<noteq> rx_id st))",
            OF _ run], goal_cases)
    case (1 f msg tries st y)
    show ?case
    proof
      assume inv: "tries \<noteq> 5
                   \<and> (\<forall>n. \<exists>r. rx st n = Some r \<and> arbitration_id r \<noteq> rx_id st)"
      then obtain r where r: "rx st (polls st) = Some r" "arbitration_id r \<noteq> rx_id st"
        by blast
      from 1(2) inv r
      have "\<exists>st2. f msg tries st2 = Some y \<and> rx st2 = rx st \<and> rx_id st2 = rx_id st"
        by (auto simp: get_message_def bus_send_def split: option.splits)
      then obtain st2 where
        "f msg tries st2 = Some y" and "rx st2 = rx st" and "rx_id st2 = rx_id st"
        by blast
      with 1(1) [of msg tries st2 y] inv show False
        by simp
    qed
  qed
  with assms show False
    by blast
qed

text \<open>
  C3: the claim asks for Timeout after exactly 5 sends whenever no SUCCESS or ERROR
  reply arrives. When one unrelated frame (identifier 3) arrives and the transport is
  silent afterwards, the exchange ends with Timeout after 6 sends: the branch for a
  non-matching frame sends the request again and leaves \<^verbatim>\<open>tries\<close> as it is.
\<close>

theorem stray_frame_resend_not_counted:
  "(case send_can_msg \<lparr>arbitration_id = 1, data = [0xFE, 0, 0, 0, 0, 0, 0, 0]\<rparr> True
           (XCPFlash 1 2 0
              (replies [\<lparr>arbitration_id = 3, data = [0, 0, 0, 0, 0, 0, 0, 0]\<rparr>])) of
      Some (res, st) \<Rightarrow>
        res = Inl (ConnectionAbortedError (PyStr ''Timeout'')) \<and> length (sent st) = 6
    | None \<Rightarrow> False)"
  by code_simp

section \<open>Properties of \<^verbatim>\<open>__call__\<close>\<close>

text \<open>
  C5: the claim asks that no exception leaves \<^verbatim>\<open>__call__\<close>, whatever one-byte error
  code the device sends. When the device answers CONNECT with an error frame whose
  code is 0x01, which the table of messages does not have, the handler's lookup raises
  KeyError; \<^verbatim>\<open>disconnect\<close> still runs, and the KeyError leaves the call.
\<close>

theorem unknown_error_code_escapes:
  "map_option fst
     (flash_call 0x8000 [1, 2, 3]
        (XCPFlash 1 2 0
           (replies [\<lparr>arbitration_id = 2, data = [0xFE, 0x01, 0, 0, 0, 0, 0, 0]\<rparr>]))) =
   Some (Inl (KeyError (PyInt 1)))"
  by code_simp

text \<open>
  Nothing but \<^verbatim>\<open>disconnect\<close> prints the line that announces it: the other stages leave
  the number of announcements as it is.
\<close>

lemma disconnect_calls_print:
  "disconnect_calls (py_print s st) =
     (if s = ''disconnecting..'' then Suc (disconnect_calls st) else disconnect_calls st)"
  by (simp add: disconnect_calls_def py_print_def)

lemma disconnect_calls_stdout:
  "stdout st' = stdout st \<Longrightarrow> disconnect_calls st' = disconnect_calls st"
  by (simp add: disconnect_calls_def)

lemma execute_stdout:
  "execute command kw st = Some (r, st') \<Longrightarrow> stdout st' = stdout st"
  by (auto simp: execute_def Let_def split: sum.splits option.splits if_splits
        dest!: send_can_msg_fields(4))

lemma execute_calls:
  "execute command kw st = Some (r, st') \<Longrightarrow> disconnect_calls st' = disconnect_calls st"
  by (rule disconnect_calls_stdout) (rule execute_stdout)

lemma print_progress_bar_calls:
  "print_progress_bar i t st = (r, st') \<Longrightarrow> disconnect_calls st' = disconnect_calls st"
  by (auto simp: print_progress_bar_def py_print_def disconnect_calls_def Let_def
        split: if_splits)

lemma program_next_loop_calls_aux:
  assumes "program_next_loop dat bytes_send send_length st = Some y"
  shows "disconnect_calls (snd y) = disconnect_calls st"
proof (rule program_next_loop.raw_induct
         [where P = "\<lambda>dat bytes_send send_length st y.
                       disconnect_calls (snd y) = disconnect_calls st",
          OF _ assms], goal_cases)
  case (1 f dat bytes_send send_length st y)
  from 1(2) show ?case
    by (auto split: if_splits option.splits sum.splits dest!: 1(1) execute_calls)
qed

lemma program_next_loop_calls:
  "program_next_loop dat bytes_send send_length st = Some (r, st') \<Longrightarrow>
     disconnect_calls st' = disconnect_calls st"
  using program_next_loop_calls_aux [of dat bytes_send send_length st "(r, st')"] by simp

lemma program_loop_calls_aux:
  assumes "program_loop dat bytes_send st = Some y"
  shows "disconnect_calls (snd y) = disconnect_calls st"
proof (rule program_loop.raw_induct
         [where P = "\<lambda>dat bytes_send st y. disconnect_calls (snd y) = disconnect_calls st",
          OF _ assms], goal_cases)
  case (1 f dat bytes_send st y)
  from 1(2) show ?case
    by (auto simp: Let_def split: if_splits option.splits sum.splits prod.splits
          dest!: 1(1) execute_calls program_next_loop_calls print_progress_bar_calls)
qed

lemma program_loop_calls:
  "program_loop dat bytes_send st = Some (r, st') \<Longrightarrow>
     disconnect_calls st' = disconnect_calls st"
  using program_loop_calls_aux [of dat bytes_send st "(r, st')"] by simp

lemma program_calls:
  "program dat st = Some (r, st') \<Longrightarrow> disconnect_calls st' = disconnect_calls st"
  by (auto simp: program_def disconnect_calls_print split: option.splits sum.splits prod.splits
        dest!: program_loop_calls print_progress_bar_calls execute_calls)

lemma connect_calls:
  "connect st = Some (r, st') \<Longrightarrow> disconnect_calls st' = disconnect_calls st"
  by (auto simp: connect_def disconnect_calls_print split: option.splits sum.splits if_splits
        dest!: execute_calls)

lemma clear_calls:
  "clear start_addr len st = Some (r, st') \<Longrightarrow> disconnect_calls st' = disconnect_calls st"
  by (auto simp: clear_def disconnect_calls_print split: option.splits sum.splits
        dest!: execute_calls)

lemma flash_stages_calls:
  "flash_stages start_addr dat st = Some (r, st') \<Longrightarrow> disconnect_calls st' = disconnect_calls st"
  by (auto simp: flash_stages_def split: option.splits sum.splits
        dest!: connect_calls clear_calls program_calls)

lemma report_aborted_calls:
  "report_aborted a st = (r, st') \<Longrightarrow> disconnect_calls st' = disconnect_calls st"
  by (auto simp: report_aborted_def disconnect_calls_print
        split: if_splits py_value.splits option.splits)

lemma flash_except_calls:
  "flash_except e st = (pending, st') \<Longrightarrow> disconnect_calls st' = disconnect_calls st"
  by (auto simp: flash_except_def disconnect_calls_print
        split: py_exc.splits sum.splits prod.splits dest!: report_aborted_calls)

lemma disconnect_once:
  "disconnect st = Some (r, st') \<Longrightarrow> disconnect_calls st' = Suc (disconnect_calls st)"
  by (auto simp: disconnect_def disconnect_calls_print split: option.splits sum.splits
        dest!: execute_calls)

lemma flash_finally_once:
  "flash_finally pending st = Some (r, st') \<Longrightarrow>
     disconnect_calls st' = Suc (disconnect_calls st)"
  by (auto simp: flash_finally_def
        split: option.splits sum.splits py_exc.splits prod.splits
        dest!: disconnect_once report_aborted_calls)

text \<open>
  A call of \<^verbatim>\<open>__call__\<close> that comes to an end, normally or with an exception leaving
  it, has announced \<^verbatim>\<open>disconnect\<close> exactly once, whatever stage failed.
\<close>

lemma disconnect_once_when_done:
  "flash_call start_addr dat st = Some (res, st') \<Longrightarrow>
     disconnect_calls st' = Suc (disconnect_calls st)"
  by (auto simp: flash_call_def split: option.splits sum.splits prod.splits
        dest!: flash_stages_calls flash_except_calls flash_finally_once)

section \<open>Properties of \<^verbatim>\<open>program\<close>\<close>

text \<open>
  One PROGRAM or PROGRAM_NEXT call on a transport whose next poll yields the positive
  response: with \<^verbatim>\<open>size <= self._max_data_prg\<close> the call sends and consumes the
  response, otherwise it only sends.
\<close>

lemma execute_program_acked:
  assumes "rx st (polls st) = Some ack" and "rx_id st = 2"
    and "command = PROGRAM \<or> command = PROGRAM_NEXT"
    and "build_msg command (program_kwargs sz payload) st = Inr d"
    and "sz \<le> max_data_prg st"
  shows "execute command (program_kwargs sz payload) st =
           Some (Inr (Some ack),
                 st\<lparr>polls := Suc (polls st),
                    sent := sent st @ [\<lparr>arbitration_id = tx_id st, data = d\<rparr>]\<rparr>)"
  using assms
  by (auto simp: execute_def send_can_msg_def wait_for_response_def wait_loop.simps
        get_message_def bus_send_def ack_def byte_at_def SUCCESS_def kw_get_def
        program_kwargs_def no_kwargs_def Let_def)

lemma execute_program_unacked:
  assumes "command = PROGRAM \<or> command = PROGRAM_NEXT"
    and "build_msg command (program_kwargs sz payload) st = Inr d"
    and "\<not> sz \<le> max_data_prg st"
  shows "execute command (program_kwargs sz payload) st =
           Some (Inr None, st\<lparr>sent := sent st @ [\<lparr>arbitration_id = tx_id st, data = d\<rparr>]\<rparr>)"
  using assms
  by (auto simp: execute_def send_can_msg_def bus_send_def kw_get_def
        program_kwargs_def no_kwargs_def Let_def)

lemma program_next_loop_done:
  "send_length \<le> 0 \<Longrightarrow>
     program_next_loop dat bytes_send send_length st = Some (Inr bytes_send, st)"
  by (subst program_next_loop.simps) simp

lemma slice_7_13: "py_slice firmware13 7 13 = [8, 9, 10, 11, 12, 13]"
  by code_simp

lemma frame_8_13:
  "build_msg PROGRAM (program_kwargs 6 [8, 9, 10, 11, 12, 13]) st =
     Inr [0xD0, 6, 8, 9, 10, 11, 12, 13]"
  by (simp add: build_msg_def replicate_8 set_byte_def kw_get_def program_kwargs_def
        no_kwargs_def)

lemma program_loop_stuck:
  assumes "rx st = always ack" and "rx_id st = 2"
    and "max_data_prg st = 6" and "data_len st = 12"
  shows "program_loop firmware13 7 st = None"
proof (rule ccontr)
  assume "program_loop firmware13 7 st \<noteq> None"
  then obtain y where run: "program_loop firmware13 7 st = Some y"
    by auto
  have "\<not> (firmware13 = firmware13 \<and> (7::int) = 7 \<and> rx st = always ack \<and> rx_id st = 2
            \<and> max_data_prg st = 6 \<and> data_len st = 12)"
  proof (rule program_loop.raw_induct
           [where P = "\<lambda>dat b st y. \<not> (dat = firmware13 \<and> b = 7 \<and> rx st = always ack
                          \<and> rx_id st = 2 \<and> max_data_prg st = 6 \<and> data_len st = 12)",
            OF _ run], goal_cases)
    case (1 f dat b st y)
    show ?case
    proof
      assume inv: "dat = firmware13 \<and> b = 7 \<and> rx st = always ack \<and> rx_id st = 2
                     \<and> max_data_prg st = 6 \<and> data_len st = 12"
      define st1 where "st1 = st\<lparr>stdout := stdout st @ [ProgressBar 7 13]\<rparr>"
      define st2 where
        "st2 = st1\<lparr>polls := Suc (polls st1),
                   sent := sent st1 @ [\<lparr>arbitration_id = tx_id st1,
                                        data = [0xD0, 6, 8, 9, 10, 11, 12, 13]\<rparr>]\<rparr>"
      have pb: "print_progress_bar 7 13 st = (Inr (), st1)"
        by (simp add: print_progress_bar_def float_ok_def index_ok_def st1_def)
      have ex: "execute PROGRAM (program_kwargs 6 [8, 9, 10, 11, 12, 13]) st1 =
                  Some (Inr (Some ack), st2)"
        unfolding st2_def
        by (rule execute_program_acked)
           (use inv in \<open>simp_all add: st1_def always_def frame_8_13\<close>)
      have len: "int (length firmware13) = 13"
        by (simp add: firmware13_def)
      have inv1: "max_data_prg st1 = 6" "max_data_prg st2 = 6" "data_len st = 12"
        using inv by (simp_all add: st1_def st2_def)
      from 1(2) have "f firmware13 7 st2 = Some y"
        using inv
        by (simp add: len pb inv1 slice_7_13 ex program_next_loop_done)
      from 1(1) [OF this] show False
        using inv by (simp add: st1_def st2_def)
    qed
  qed
  with assms show False
    by simp
qed


lemma slice_12_18: "py_slice firmware13 12 18 = [13]"
  by code_simp

lemma slice_0_6: "py_slice firmware13 0 6 = [1, 2, 3, 4, 5, 6]"
  by code_simp

lemma slice_6_12: "py_slice firmware13 6 12 = [7, 8, 9, 10, 11, 12]"
  by code_simp

lemma frame_13:
  "build_msg PROGRAM (program_kwargs 1 [13]) st = Inr [0xD0, 1, 13, 0, 0, 0, 0, 0]"
  by (simp add: build_msg_def replicate_8 set_byte_def kw_get_def program_kwargs_def
        no_kwargs_def)

lemma frame_1_6:
  "build_msg PROGRAM (program_kwargs 12 [1, 2, 3, 4, 5, 6]) st =
     Inr [0xD0, 12, 1, 2, 3, 4, 5, 6]"
  by (simp add: build_msg_def replicate_8 set_byte_def kw_get_def program_kwargs_def
        no_kwargs_def)

lemma frame_7_12:
  "build_msg PROGRAM_NEXT (program_kwargs 6 [7, 8, 9, 10, 11, 12]) st =
     Inr [0xCA, 6, 7, 8, 9, 10, 11, 12]"
  by (simp add: build_msg_def replicate_8 set_byte_def kw_get_def program_kwargs_def
        no_kwargs_def)

lemma program_loop_12:
  assumes "rx st = always ack" and "rx_id st = 2"
    and "max_data_prg st = 6" and "data_len st = 12"
  shows "program_loop firmware13 12 st = None"
proof -
  define st1 where "st1 = st\<lparr>stdout := stdout st @ [ProgressBar 12 13]\<rparr>"
  define st2 where
    "st2 = st1\<lparr>polls := Suc (polls st1),
               sent := sent st1 @ [\<lparr>arbitration_id = tx_id st1,
                                    data = [0xD0, 1, 13, 0, 0, 0, 0, 0]\<rparr>]\<rparr>"
  have pb: "print_progress_bar 12 13 st = (Inr (), st1)"
    by (simp add: print_progress_bar_def float_ok_def index_ok_def st1_def)
  have ex: "execute PROGRAM (program_kwargs 1 [13]) st1 = Some (Inr (Some ack), st2)"
    unfolding st2_def
    by (rule execute_program_acked)
       (use assms in \<open>simp_all add: st1_def always_def frame_13\<close>)
  have len: "int (length firmware13) = 13"
    by (simp add: firmware13_def)
  have inv1: "max_data_prg st1 = 6" "max_data_prg st2 = 6"
    using assms by (simp_all add: st1_def st2_def)
  have "program_loop firmware13 7 st2 = None"
    by (rule program_loop_stuck) (use assms in \<open>simp_all add: st1_def st2_def\<close>)
  then show ?thesis
    using assms
    by (subst program_loop.simps)
       (simp add: len pb inv1 slice_12_18 ex program_next_loop_done)
qed

lemma program_loop_0:
  assumes "rx st = always ack" and "rx_id st = 2"
    and "max_data_prg st = 6" and "data_len st = 12"
  shows "program_loop firmware13 0 st = None"
proof -
  define st1 where "st1 = st\<lparr>stdout := stdout st @ [ProgressBar 0 13]\<rparr>"
  define st2 where
    "st2 = st1\<lparr>sent := sent st1 @ [\<lparr>arbitration_id = tx_id st1,
                                    data = [0xD0, 12, 1, 2, 3, 4, 5, 6]\<rparr>]\<rparr>"
  define st3 where
    "st3 = st2\<lparr>polls := Suc (polls st2),
               sent := sent st2 @ [\<lparr>arbitration_id = tx_id st2,
                                    data = [0xCA, 6, 7, 8, 9, 10, 11, 12]\<rparr>]\<rparr>"
  have pb: "print_progress_bar 0 13 st = (Inr (), st1)"
    by (simp add: print_progress_bar_def float_ok_def index_ok_def st1_def)
  have ex1: "execute PROGRAM (program_kwargs 12 [1, 2, 3, 4, 5, 6]) st1 = Some (Inr None, st2)"
    unfolding st2_def
    by (rule execute_program_unacked)
       (use assms in \<open>simp_all add: st1_def frame_1_6\<close>)
  have ex2: "execute PROGRAM_NEXT (program_kwargs 6 [7, 8, 9, 10, 11, 12]) st2 =
               Some (Inr (Some ack), st3)"
    unfolding st3_def
    by (rule execute_program_acked)
       (use assms in \<open>simp_all add: st1_def st2_def always_def frame_7_12\<close>)
  have len: "int (length firmware13) = 13"
    by (simp add: firmware13_def)
  have inv1: "max_data_prg st1 = 6" "max_data_prg st2 = 6" "max_data_prg st3 = 6"
    using assms by (simp_all add: st1_def st2_def st3_def)
  have next_loop: "program_next_loop firmware13 6 6 st2 = Some (Inr 12, st3)"
    by (subst program_next_loop.simps)
       (simp add: inv1 slice_6_12 ex2 program_next_loop_done)
  have "program_loop firmware13 12 st3 = None"
    by (rule program_loop_12) (use assms in \<open>simp_all add: st1_def st2_def st3_def\<close>)
  then show ?thesis
    using assms
    by (subst program_loop.simps)
       (simp add: len pb inv1 slice_0_6 ex1 next_loop)
qed

text \<open>
  C2: the claim asks that \<^verbatim>\<open>program(data)\<close> ends, sending PROGRAM_RESET once, for every
  firmware and every capacity and transfer count of at least 1. With capacity 6 and
  count 2 (\<^verbatim>\<open>_max_data_prg = 6\<close>, \<^verbatim>\<open>_data_len = 12\<close>), a firmware of 13 bytes and a device
  that acknowledges every frame, \<^verbatim>\<open>program\<close> never returns: after the last byte the
  cursor goes back from 12 to 7 and then stays at 7, one PROGRAM frame after another.
\<close>

theorem program_never_returns:
  "program firmware13 ((XCPFlash 1 2 0 (always ack))\<lparr>data_len := 12, max_data_prg := 6\<rparr>) = None"
proof -
  have "program_loop firmware13 0
          (py_print ''flashing new firmware...''
             ((XCPFlash 1 2 0 (always ack))\<lparr>data_len := 12, max_data_prg := 6\<rparr>)) = None"
    by (rule program_loop_0) (simp_all add: py_print_def XCPFlash_def)
  then show ?thesis
    by (simp add: program_def)
qed

text \<open>
  C1: the claim asks that the payloads of the emitted frames, in order, make up the
  firmware exactly. With capacity 6, count 2 and the 13-byte firmware, on a device
  that acknowledges the two units of the transfer and is silent afterwards, the frames
  sent are PROGRAM(size 12, bytes 1..6), PROGRAM_NEXT(size 6, bytes 7..12),
  PROGRAM(size 1, byte 13) and then PROGRAM(size 6, bytes 8..13), sent five times until
  the exchange gives up: bytes 8 to 13 are emitted again after the whole firmware.
\<close>

theorem cursor_moves_back:
  "(case program firmware13
           ((XCPFlash 1 2 0 (replies [ack, ack]))\<lparr>data_len := 12, max_data_prg := 6\<rparr>) of
      Some (res, st) \<Rightarrow>
        res = Inl (ConnectionAbortedError (PyStr ''Timeout''))
        \<and> map data (sent st) =
            [[0xD0, 12, 1, 2, 3, 4, 5, 6], [0xCA, 6, 7, 8, 9, 10, 11, 12],
             [0xD0, 1, 13, 0, 0, 0, 0, 0],
             [0xD0, 6, 8, 9, 10, 11, 12, 13], [0xD0, 6, 8, 9, 10, 11, 12, 13],
             [0xD0, 6, 8, 9, 10, 11, 12, 13], [0xD0, 6, 8, 9, 10, 11, 12, 13],
             [0xD0, 6, 8, 9, 10, 11, 12, 13]]
    | None \<Rightarrow> False)"
  by code_simp

section \<open>Negotiated limits and sizing\<close>

text \<open>
  The generic transfer limit is never read: with another value in its place the
  exchange, \<^verbatim>\<open>execute\<close> for PROGRAM, PROGRAM_NEXT and PROGRAM_RESET, both loops and
  \<^verbatim>\<open>program\<close> do the same and leave the same state, the other value apart.
\<close>

lemma max_data_outward:
  "(st\<lparr>max_data := x\<rparr>)\<lparr>polls := p\<rparr> = (st\<lparr>polls := p\<rparr>)\<lparr>max_data := x\<rparr>"
  "(st\<lparr>max_data := x\<rparr>)\<lparr>sent := s\<rparr> = (st\<lparr>sent := s\<rparr>)\<lparr>max_data := x\<rparr>"
  "(st\<lparr>max_data := x\<rparr>)\<lparr>stdout := out\<rparr> = (st\<lparr>stdout := out\<rparr>)\<lparr>max_data := x\<rparr>"
  by (cases st; simp)+

lemma wait_loop_max_data_aux:
  assumes "wait_loop msg tries st = Some y"
  shows "wait_loop msg tries (st\<lparr>max_data := x\<rparr>) = Some (fst y, (snd y)\<lparr>max_data := x\<rparr>)"
proof (rule wait_loop.raw_induct
         [where P = "\<lambda>msg tries st y.
                       wait_loop msg tries (st\<lparr>max_data := x\<rparr>) =
                         Some (fst y, (snd y)\<lparr>max_data := x\<rparr>)",
          OF _ assms], goal_cases)
  case (1 f msg tries st y)
  from 1(2) show ?case
    by (subst wait_loop.simps)
       (auto simp: get_message_def bus_send_def max_data_outward dest!: 1(1)
          split: if_splits option.splits sum.splits)
qed

lemma wait_loop_max_data:
  "wait_loop msg tries st = Some (r, s) \<Longrightarrow>
     wait_loop msg tries (st\<lparr>max_data := x\<rparr>) = Some (r, s\<lparr>max_data := x\<rparr>)"
  using wait_loop_max_data_aux [of msg tries st "(r, s)" x] by simp


lemma send_can_msg_max_data:
  assumes "send_can_msg m w st = Some (r, s)"
  shows "send_can_msg m w (st\<lparr>max_data := x\<rparr>) = Some (r, s\<lparr>max_data := x\<rparr>)"
proof (cases w)
  case False
  with assms show ?thesis
    by (auto simp: send_can_msg_def bus_send_def max_data_outward)
next
  case True
  with assms obtain r2 where
    run: "wait_loop (Some m) 1 (bus_send m st) = Some (r2, s)"
    and r: "r = (case r2 of Inl e \<Rightarrow> Inl e | Inr v \<Rightarrow> Inr (Some v))"
    by (auto simp: send_can_msg_def wait_for_response_def Let_def
          split: option.splits sum.splits)
  have "bus_send m (st\<lparr>max_data := x\<rparr>) = (bus_send m st)\<lparr>max_data := x\<rparr>"
    by (simp add: bus_send_def max_data_outward)
  with wait_loop_max_data [OF run, of x] True r show ?thesis
    by (simp add: send_can_msg_def wait_for_response_def split: sum.splits)
qed

lemma build_msg_max_data:
  "command \<noteq> CONNECT \<Longrightarrow>
     build_msg command kw (st\<lparr>max_data := x\<rparr>) = build_msg command kw st"
  by (auto simp: build_msg_def split: sum.splits)

lemma execute_max_data:
  assumes "command = PROGRAM \<or> command = PROGRAM_NEXT \<or> command = PROGRAM_RESET"
    and "execute command kw st = Some (r, s)"
  shows "execute command kw (st\<lparr>max_data := x\<rparr>) = Some (r, s\<lparr>max_data := x\<rparr>)"
proof (cases "build_msg command kw st")
  case (Inl e)
  with assms show ?thesis
    by (auto simp: execute_def build_msg_max_data)
next
  case (Inr d)
  show ?thesis
  proof (cases "command = PROGRAM_RESET")
    case True
    with assms Inr
    have "send_can_msg \<lparr>arbitration_id = tx_id st, data = d\<rparr> True st = Some (r, s)"
      by (simp add: execute_def)
    from send_can_msg_max_data [OF this, of x] True Inr show ?thesis
      by (simp add: execute_def build_msg_max_data)
  next
    case False
    with assms have cmd: "command = PROGRAM \<or> command = PROGRAM_NEXT"
      by simp
    show ?thesis
    proof (cases "kw_get ''size'' (kw_size kw)")
      case (Inl e)
      with assms cmd Inr show ?thesis
        by (auto simp: execute_def build_msg_max_data)
    next
      case sz: (Inr sz)
      with assms cmd Inr
      have "send_can_msg \<lparr>arbitration_id = tx_id st, data = d\<rparr> (sz \<le> max_data_prg st) st =
              Some (r, s)"
        by (auto simp: execute_def)
      from send_can_msg_max_data [OF this, of x] cmd Inr sz show ?thesis
        by (auto simp: execute_def build_msg_max_data)
    qed
  qed
qed


lemma print_progress_bar_max_data:
  "print_progress_bar i t st = (r, s) \<Longrightarrow>
     print_progress_bar i t (st\<lparr>max_data := x\<rparr>) = (r, s\<lparr>max_data := x\<rparr>)"
  by (auto simp: print_progress_bar_def py_print_def Let_def max_data_outward
        split: if_splits)

lemma program_next_loop_max_data_aux:
  assumes "program_next_loop dat bytes_send send_length st = Some y"
  shows "program_next_loop dat bytes_send send_length (st\<lparr>max_data := x\<rparr>) =
           Some (fst y, (snd y)\<lparr>max_data := x\<rparr>)"
proof (rule program_next_loop.raw_induct
         [where P = "\<lambda>dat bytes_send send_length st y.
                       program_next_loop dat bytes_send send_length (st\<lparr>max_data := x\<rparr>) =
                         Some (fst y, (snd y)\<lparr>max_data := x\<rparr>)",
          OF _ assms], goal_cases)
  case (1 f dat bytes_send send_length st y)
  show ?case
  proof (cases "send_length > 0")
    case False
    with 1(2) show ?thesis
      by (subst program_next_loop.simps) auto
  next
    case True
    let ?kw = "program_kwargs send_length
                 (py_slice dat bytes_send (bytes_send + max_data_prg st))"
    from 1(2) True obtain r1 st1 where
      ex: "execute PROGRAM_NEXT ?kw st = Some (r1, st1)"
      by (cases "execute PROGRAM_NEXT ?kw st") auto
    note ex' = execute_max_data [where x = x, OF _ ex, simplified]
    show ?thesis
    proof (cases r1)
      case (Inl e)
      with 1(2) True ex ex' show ?thesis
        by (subst program_next_loop.simps) auto
    next
      case (Inr v)
      with 1(2) True ex
      have "f dat (bytes_send + min send_length (max_data_prg st1))
              (send_length - max_data_prg st1) st1 = Some y"
        by simp
      from 1(1) [OF this] True ex' Inr show ?thesis
        by (subst program_next_loop.simps) simp
    qed
  qed
qed

lemma program_next_loop_max_data:
  "program_next_loop dat bytes_send send_length st = Some (r, s) \<Longrightarrow>
     program_next_loop dat bytes_send send_length (st\<lparr>max_data := x\<rparr>) =
       Some (r, s\<lparr>max_data := x\<rparr>)"
  using program_next_loop_max_data_aux [of dat bytes_send send_length st "(r, s)" x] by simp


lemma program_loop_max_data_aux:
  assumes "program_loop dat bytes_send st = Some y"
  shows "program_loop dat bytes_send (st\<lparr>max_data := x\<rparr>) =
           Some (fst y, (snd y)\<lparr>max_data := x\<rparr>)"
proof (rule program_loop.raw_induct
         [where P = "\<lambda>dat bytes_send st y.
                       program_loop dat bytes_send (st\<lparr>max_data := x\<rparr>) =
                         Some (fst y, (snd y)\<lparr>max_data := x\<rparr>)",
          OF _ assms], goal_cases)
  case (1 f dat bytes_send st y)
  show ?case
  proof (cases "bytes_send < int (length dat)")
    case False
    with 1(2) show ?thesis
      by (subst program_loop.simps) auto
  next
    case True
    define pb where
      "pb = (if bytes_send mod 10000 \<le> data_len st
             then print_progress_bar bytes_send (int (length dat)) st
             else (Inr (), st))"
    obtain r0 st1 where pb_eq: "pb = (r0, st1)"
      by (cases pb)
    have pb': "(if bytes_send mod 10000 \<le> data_len (st\<lparr>max_data := x\<rparr>)
                then print_progress_bar bytes_send (int (length dat)) (st\<lparr>max_data := x\<rparr>)
                else (Inr (), st\<lparr>max_data := x\<rparr>)) = (r0, st1\<lparr>max_data := x\<rparr>)"
      using pb_eq print_progress_bar_max_data [of bytes_send "int (length dat)" st r0 st1 x]
      by (auto simp: pb_def split: if_splits)
    show ?thesis
    proof (cases r0)
      case (Inl e)
      with 1(2) True pb_eq pb' show ?thesis
        by (subst program_loop.simps) (auto simp add: pb_def [symmetric])
    next
      case r0: (Inr u)
      define send_length where
        "send_length = (if data_len st > int (length dat) - bytes_send
                        then int (length dat) - bytes_send else data_len st)"
      let ?kw = "program_kwargs send_length
                   (py_slice dat bytes_send (bytes_send + max_data_prg st1))"
      have step: "Some y =
        (case execute PROGRAM ?kw st1 of
           None \<Rightarrow> None
         | Some (Inl e, st2) \<Rightarrow> Some (Inl e, st2)
         | Some (Inr _, st2) \<Rightarrow>
             (case program_next_loop dat
                     (bytes_send + min (send_length - max_data_prg st2) (max_data_prg st2))
                     (send_length - max_data_prg st2) st2 of
                None \<Rightarrow> None
              | Some (Inl e, st3) \<Rightarrow> Some (Inl e, st3)
              | Some (Inr bytes_send', st3) \<Rightarrow> f dat bytes_send' st3))"
        using 1(2) True pb_eq r0 unfolding send_length_def
        by (simp add: pb_def [symmetric] Let_def)
      have dl: "data_len (st\<lparr>max_data := x\<rparr>) = data_len st"
        by simp
      have step': "program_loop dat bytes_send (st\<lparr>max_data := x\<rparr>) =
        (case execute PROGRAM ?kw (st1\<lparr>max_data := x\<rparr>) of
           None \<Rightarrow> None
         | Some (Inl e, st2) \<Rightarrow> Some (Inl e, st2)
         | Some (Inr _, st2) \<Rightarrow>
             (case program_next_loop dat
                     (bytes_send + min (send_length - max_data_prg st2) (max_data_prg st2))
                     (send_length - max_data_prg st2) st2 of
                None \<Rightarrow> None
              | Some (Inl e, st3) \<Rightarrow> Some (Inl e, st3)
              | Some (Inr bytes_send', st3) \<Rightarrow> program_loop dat bytes_send' st3))"
        using True pb' r0 unfolding send_length_def
        by (subst program_loop.simps, unfold Let_def dl) simp
      from step obtain r1 st2 where
        ex: "execute PROGRAM ?kw st1 = Some (r1, st2)"
        by (cases "execute PROGRAM ?kw st1") auto
      note ex' = execute_max_data [where x = x, OF _ ex, simplified]
      show ?thesis
      proof (cases r1)
        case (Inl e)
        with step step' ex ex' show ?thesis
          by auto
      next
        case r1: (Inr v)
        let ?b = "bytes_send + min (send_length - max_data_prg st2) (max_data_prg st2)"
        let ?sl = "send_length - max_data_prg st2"
        from step ex r1 obtain r2 st3 where
          nx: "program_next_loop dat ?b ?sl st2 = Some (r2, st3)"
          by (cases "program_next_loop dat ?b ?sl st2") auto
        note nx' = program_next_loop_max_data [OF nx, of x]
        have st2: "max_data_prg (st2\<lparr>max_data := x\<rparr>) = max_data_prg st2"
          by simp
        show ?thesis
        proof (cases r2)
          case (Inl e)
          with step step' ex ex' r1 nx nx' show ?thesis
            by auto
        next
          case r2: (Inr b')
          with step ex r1 nx have "f dat b' st3 = Some y"
            by simp
          from 1(1) [OF this] step' ex' r1 nx' r2 show ?thesis
            by simp
        qed
      qed
    qed
  qed
qed

lemma program_loop_max_data:
  "program_loop dat bytes_send st = Some (r, s) \<Longrightarrow>
     program_loop dat bytes_send (st\<lparr>max_data := x\<rparr>) = Some (r, s\<lparr>max_data := x\<rparr>)"
  using program_loop_max_data_aux [of dat bytes_send st "(r, s)" x] by simp

lemma program_max_data_Some:
  assumes "program dat st = Some (r, s)"
  shows "program dat (st\<lparr>max_data := x\<rparr>) = Some (r, s\<lparr>max_data := x\<rparr>)"
proof -
  let ?st0 = "py_print ''flashing new firmware...'' st"
  have st0: "py_print ''flashing new firmware...'' (st\<lparr>max_data := x\<rparr>) = ?st0\<lparr>max_data := x\<rparr>"
    by (simp add: py_print_def max_data_outward)
  from assms obtain r1 st1 where lp: "program_loop dat 0 ?st0 = Some (r1, st1)"
    by (cases "program_loop dat 0 ?st0") (auto simp: program_def)
  note lp' = program_loop_max_data [OF lp, of x]
  show ?thesis
  proof (cases r1)
    case (Inl e)
    with assms lp lp' st0 show ?thesis
      by (auto simp: program_def)
  next
    case r1: (Inr b)
    obtain r2 st2 where pb: "print_progress_bar b (int (length dat)) st1 = (r2, st2)"
      by (cases "print_progress_bar b (int (length dat)) st1")
    note pb' = print_progress_bar_max_data [OF pb, of x]
    show ?thesis
    proof (cases r2)
      case (Inl e)
      with assms lp lp' st0 r1 pb pb' show ?thesis
        by (auto simp: program_def)
    next
      case r2: (Inr u)
      from assms lp r1 pb r2 obtain r3 st3 where
        ex: "execute PROGRAM_RESET no_kwargs st2 = Some (r3, st3)"
        by (cases "execute PROGRAM_RESET no_kwargs st2") (auto simp: program_def)
      note ex' = execute_max_data [where x = x, OF _ ex, simplified]
      from assms lp lp' st0 r1 pb pb' r2 ex ex' show ?thesis
        by (auto simp: program_def split: sum.splits)
    qed
  qed
qed

lemma program_max_data:
  "program dat (st\<lparr>max_data := x\<rparr>) =
     map_option (\<lambda>(res, s). (res, s\<lparr>max_data := x\<rparr>)) (program dat st)"
proof (cases "program dat st")
  case (Some y)
  then show ?thesis
    using program_max_data_Some [of dat st "fst y" "snd y" x] by (cases y) simp
next
  case None
  show ?thesis
  proof (cases "program dat (st\<lparr>max_data := x\<rparr>)")
    case inner: None
    with None show ?thesis by simp
  next
    case (Some y)
    from program_max_data_Some [of dat "st\<lparr>max_data := x\<rparr>" "fst y" "snd y" "max_data st"] Some
    have "program dat st \<noteq> None"
      by simp
    with None show ?thesis by simp
  qed
qed

text \<open>
  The frames \<^verbatim>\<open>program\<close> has sent when it returns: an exchange adds copies of its
  request only, a PROGRAM or PROGRAM_NEXT frame that was built has the size argument in
  byte 1 and zero after its payload, a slice of \<^verbatim>\<open>_max_data_prg\<close> bytes is no longer
  than that, and the size argument never exceeds \<^verbatim>\<open>_data_len\<close>.
\<close>

lemma wait_loop_sent_aux:
  assumes "wait_loop msg tries st = Some y"
  shows "\<exists>fs. sent (snd y) = sent st @ fs \<and> set fs \<subseteq> set_option msg"
proof (rule wait_loop.raw_induct
         [where P = "\<lambda>msg tries st y.
                       \<exists>fs. sent (snd y) = sent st @ fs \<and> set fs \<subseteq> set_option msg",
          OF _ assms], goal_cases)
  case (1 f msg tries st y)
  from 1(2) show ?case
    by (auto simp: get_message_def bus_send_def dest!: 1(1)
          split: if_splits option.splits sum.splits)
qed

lemma send_can_msg_sent:
  assumes "send_can_msg m w st = Some (r, st')"
  shows "\<exists>fs. sent st' = sent st @ fs \<and> set fs \<subseteq> {m}"
proof (cases w)
  case False
  with assms show ?thesis
    by (auto simp: send_can_msg_def bus_send_def)
next
  case True
  with assms obtain r2 where "wait_loop (Some m) 1 (bus_send m st) = Some (r2, st')"
    by (auto simp: send_can_msg_def wait_for_response_def Let_def
          split: option.splits sum.splits)
  from wait_loop_sent_aux [OF this] show ?thesis
    by (auto simp: bus_send_def)
qed

lemma set_byte_Inr:
  "set_byte bs i v = Inr bs' \<Longrightarrow> i < length bs \<and> bs' = bs[i := v]"
  by (auto simp: set_byte_def split: if_splits)

lemma put_data_Inr:
  "put_data ds pos bs = Inr d \<Longrightarrow>
     length d = length bs \<and> take pos d = take pos bs
     \<and> drop (pos + length ds) d = drop (pos + length ds) bs"
proof (induction ds arbitrary: pos bs)
  case Nil
  then show ?case by simp
next
  case (Cons x ds)
  from Cons.prems obtain bs' where
    sb: "set_byte bs pos x = Inr bs'" and rest: "put_data ds (pos + 1) bs' = Inr d"
    by (auto split: sum.splits)
  from set_byte_Inr [OF sb] have bs': "pos < length bs" "bs' = bs[pos := x]"
    by simp_all
  from Cons.IH [OF rest] have
    ih: "length d = length bs'" "take (pos + 1) d = take (pos + 1) bs'"
        "drop (pos + 1 + length ds) d = drop (pos + 1 + length ds) bs'"
    by simp_all
  have "take pos d = take pos (take (pos + 1) d)"
    by (simp add: min_def)
  also have "\<dots> = take pos bs"
    using ih(2) bs' by (simp add: min_def)
  finally have "take pos d = take pos bs" .
  with ih bs' show ?case
    by simp
qed

lemma build_msg_program_form:
  assumes "command = PROGRAM \<or> command = PROGRAM_NEXT"
    and "build_msg command (program_kwargs sz payload) st = Inr d"
  shows "length d = 8 \<and> (d ! 0 = 0xD0 \<or> d ! 0 = 0xCA) \<and> d ! 1 = sz
         \<and> drop (2 + length payload) d = replicate (6 - length payload) 0"
proof -
  from assms obtain d1 where
    d1: "set_byte [command_value command, 0, 0, 0, 0, 0, 0, 0] 1 sz = Inr d1"
    and pd: "put_data payload 2 d1 = Inr d"
    by (auto simp: build_msg_def replicate_8 set_byte_def kw_get_def program_kwargs_def
          no_kwargs_def split: if_splits sum.splits)
  from set_byte_Inr [OF d1] have d1_eq: "d1 = [command_value command, sz, 0, 0, 0, 0, 0, 0]"
    by simp
  from put_data_Inr [OF pd] have
    len: "length d = 8" and tk: "take 2 d = [command_value command, sz]"
    and dr: "drop (2 + length payload) d = drop (2 + length payload) d1"
    by (simp_all add: d1_eq)
  have "d1 = [command_value command, sz] @ replicate 6 (0::int)"
    by (simp add: d1_eq numeral_eq_Suc)
  then have "drop (2 + length payload) d1 = replicate (6 - length payload) 0"
    by (simp only: drop_append drop_replicate) simp
  moreover have "d ! 0 = command_value command" "d ! 1 = sz"
    using tk len by (metis nth_take zero_less_numeral nth_Cons_0,
                     metis nth_take one_less_numeral_iff semiring_norm(76) nth_Cons_0 nth_Cons_Suc One_nat_def)
  ultimately show ?thesis
    using len dr assms(1) by auto
qed

lemma py_slice_length: "0 \<le> m \<Longrightarrow> length (py_slice xs i (i + m)) \<le> nat m"
  by (auto simp: py_slice_def Let_def min_def max_def)


lemma execute_program_frames:
  assumes cmd: "command = PROGRAM \<or> command = PROGRAM_NEXT"
    and run: "execute command (program_kwargs sz payload) st = Some (r, st')"
    and payload: "length payload \<le> nat capacity" and sz: "sz \<le> unit_len"
  shows "(\<exists>fs. sent st' = sent st @ fs \<and> (\<forall>f\<in>set fs. sized_by capacity unit_len f))
         \<and> max_data_prg st' = max_data_prg st \<and> data_len st' = data_len st"
proof (cases "build_msg command (program_kwargs sz payload) st")
  case (Inl e)
  with run have "st' = st"
    by (simp add: execute_def)
  then show ?thesis
    by simp
next
  case (Inr d)
  let ?msg = "\<lparr>arbitration_id = tx_id st, data = d\<rparr>"
  from cmd run Inr obtain w where snd: "send_can_msg ?msg w st = Some (r, st')"
    by (auto simp: execute_def kw_get_def program_kwargs_def no_kwargs_def)
  from build_msg_program_form [OF cmd Inr] have
    form: "length d = 8" "d ! 0 = 0xD0 \<or> d ! 0 = 0xCA" "d ! 1 = sz"
          "drop (2 + length payload) d = replicate (6 - length payload) 0"
    by simp_all
  have "(nat capacity - length payload) + (2 + length payload) = 2 + nat capacity"
    using payload by simp
  then have "drop (2 + nat capacity) d =
          drop (nat capacity - length payload) (drop (2 + length payload) d)"
    by (simp only: drop_drop)
  also have "\<dots> = drop (nat capacity - length payload) (replicate (6 - length payload) 0)"
    by (simp only: form(4))
  also have "\<dots> = replicate (6 - length payload - (nat capacity - length payload)) 0"
    by (simp only: drop_replicate)
  also have "6 - length payload - (nat capacity - length payload) = 6 - nat capacity"
    using payload by arith
  finally have "sized_by capacity unit_len ?msg"
    using form sz by (simp add: sized_by_def)
  with send_can_msg_sent [OF snd] send_can_msg_fields(1,2) [OF snd] show ?thesis
    by auto
qed

lemma program_next_loop_frames_aux:
  assumes "program_next_loop dat bytes_send send_length st = Some y"
  shows "0 \<le> max_data_prg st \<longrightarrow> send_length \<le> unit_len \<longrightarrow>
           (\<exists>fs. sent (snd y) = sent st @ fs
                 \<and> (\<forall>f\<in>set fs. sized_by (max_data_prg st) unit_len f))
           \<and> max_data_prg (snd y) = max_data_prg st \<and> data_len (snd y) = data_len st"
proof (rule program_next_loop.raw_induct
         [where P = "\<lambda>dat bytes_send send_length st y.
            0 \<le> max_data_prg st \<longrightarrow> send_length \<le> unit_len \<longrightarrow>
              (\<exists>fs. sent (snd y) = sent st @ fs
                    \<and> (\<forall>f\<in>set fs. sized_by (max_data_prg st) unit_len f))
              \<and> max_data_prg (snd y) = max_data_prg st \<and> data_len (snd y) = data_len st",
          OF _ assms], goal_cases)
  case (1 f dat bytes_send send_length st y)
  show ?case
  proof (intro impI)
    assume cap: "0 \<le> max_data_prg st" and sl: "send_length \<le> unit_len"
    show "(\<exists>fs. sent (snd y) = sent st @ fs
                \<and> (\<forall>f\<in>set fs. sized_by (max_data_prg st) unit_len f))
          \<and> max_data_prg (snd y) = max_data_prg st \<and> data_len (snd y) = data_len st"
    proof (cases "send_length > 0")
      case False
      with 1(2) show ?thesis
        by auto
    next
      case True
      let ?payload = "py_slice dat bytes_send (bytes_send + max_data_prg st)"
      from 1(2) True obtain r1 st1 where
        ex: "execute PROGRAM_NEXT (program_kwargs send_length ?payload) st = Some (r1, st1)"
        by (cases "execute PROGRAM_NEXT (program_kwargs send_length ?payload) st") auto
      from execute_program_frames [OF _ ex py_slice_length [OF cap] sl]
      obtain fs1 where
        fs1: "sent st1 = sent st @ fs1" "\<forall>f\<in>set fs1. sized_by (max_data_prg st) unit_len f"
        and keep1: "max_data_prg st1 = max_data_prg st" "data_len st1 = data_len st"
        by auto
      show ?thesis
      proof (cases r1)
        case (Inl e)
        with 1(2) True ex fs1 keep1 show ?thesis
          by auto
      next
        case (Inr v)
        with 1(2) True ex
        have "f dat (bytes_send + min send_length (max_data_prg st1))
                (send_length - max_data_prg st1) st1 = Some y"
          by simp
        from 1(1) [OF this] cap sl keep1
        obtain fs2 where
          fs2: "sent (snd y) = sent st1 @ fs2"
               "\<forall>f\<in>set fs2. sized_by (max_data_prg st) unit_len f"
          and keep2: "max_data_prg (snd y) = max_data_prg st" "data_len (snd y) = data_len st"
          by auto
        from fs1 fs2 have "sent (snd y) = sent st @ (fs1 @ fs2)"
          "\<forall>f\<in>set (fs1 @ fs2). sized_by (max_data_prg st) unit_len f"
          by auto
        with keep2 show ?thesis
          by blast
      qed
    qed
  qed
qed

lemma print_progress_bar_keeps:
  "print_progress_bar i t st = (r, st') \<Longrightarrow>
     sent st' = sent st \<and> max_data_prg st' = max_data_prg st \<and> data_len st' = data_len st"
  by (auto simp: print_progress_bar_def py_print_def Let_def split: if_splits)


lemma program_loop_frames_aux:
  assumes "program_loop dat bytes_send st = Some y"
  shows "0 \<le> max_data_prg st \<longrightarrow>
           (\<exists>fs. sent (snd y) = sent st @ fs
                 \<and> (\<forall>f\<in>set fs. sized_by (max_data_prg st) (data_len st) f))
           \<and> max_data_prg (snd y) = max_data_prg st \<and> data_len (snd y) = data_len st"
proof (rule program_loop.raw_induct
         [where P = "\<lambda>dat bytes_send st y.
            0 \<le> max_data_prg st \<longrightarrow>
              (\<exists>fs. sent (snd y) = sent st @ fs
                    \<and> (\<forall>f\<in>set fs. sized_by (max_data_prg st) (data_len st) f))
              \<and> max_data_prg (snd y) = max_data_prg st \<and> data_len (snd y) = data_len st",
          OF _ assms], goal_cases)
  case (1 f dat bytes_send st y)
  show ?case
  proof (intro impI)
    assume cap: "0 \<le> max_data_prg st"
    show "(\<exists>fs. sent (snd y) = sent st @ fs
                \<and> (\<forall>f\<in>set fs. sized_by (max_data_prg st) (data_len st) f))
          \<and> max_data_prg (snd y) = max_data_prg st \<and> data_len (snd y) = data_len st"
    proof (cases "bytes_send < int (length dat)")
      case False
      with 1(2) show ?thesis
        by auto
    next
      case True
      define pb where
        "pb = (if bytes_send mod 10000 \<le> data_len st
               then print_progress_bar bytes_send (int (length dat)) st
               else (Inr (), st))"
      obtain r0 st1 where pb_eq: "pb = (r0, st1)"
        by (cases pb)
      have keep0: "sent st1 = sent st" "max_data_prg st1 = max_data_prg st"
                  "data_len st1 = data_len st"
        using pb_eq print_progress_bar_keeps [of bytes_send "int (length dat)" st r0 st1]
        by (auto simp: pb_def split: if_splits)
      show ?thesis
      proof (cases r0)
        case (Inl e)
        with 1(2) True pb_eq keep0 show ?thesis
          by (auto simp add: pb_def [symmetric])
      next
        case r0: (Inr u)
        define send_length where
          "send_length = (if data_len st > int (length dat) - bytes_send
                          then int (length dat) - bytes_send else data_len st)"
        have sl: "send_length \<le> data_len st"
          by (simp add: send_length_def)
        let ?payload = "py_slice dat bytes_send (bytes_send + max_data_prg st1)"
        let ?kw = "program_kwargs send_length ?payload"
        have step: "Some y =
          (case execute PROGRAM ?kw st1 of
             None \<Rightarrow> None
           | Some (Inl e, st2) \<Rightarrow> Some (Inl e, st2)
           | Some (Inr _, st2) \<Rightarrow>
               (case program_next_loop dat
                       (bytes_send + min (send_length - max_data_prg st2) (max_data_prg st2))
                       (send_length - max_data_prg st2) st2 of
                  None \<Rightarrow> None
                | Some (Inl e, st3) \<Rightarrow> Some (Inl e, st3)
                | Some (Inr bytes_send', st3) \<Rightarrow> f dat bytes_send' st3))"
          using 1(2) True pb_eq r0 unfolding send_length_def
          by (simp add: pb_def [symmetric] Let_def)
        from step obtain r1 st2 where
          ex: "execute PROGRAM ?kw st1 = Some (r1, st2)"
          by (cases "execute PROGRAM ?kw st1") auto
        have cap1: "0 \<le> max_data_prg st1"
          using cap keep0 by simp
        from execute_program_frames [OF _ ex py_slice_length [OF cap1] sl]
        obtain fs1 where
          fs1: "sent st2 = sent st @ fs1"
               "\<forall>f\<in>set fs1. sized_by (max_data_prg st) (data_len st) f"
          and keep1: "max_data_prg st2 = max_data_prg st" "data_len st2 = data_len st"
          using keep0 by auto
        show ?thesis
        proof (cases r1)
          case (Inl e)
          with step ex fs1 keep1 show ?thesis
            by auto
        next
          case r1: (Inr v)
          let ?b = "bytes_send + min (send_length - max_data_prg st2) (max_data_prg st2)"
          let ?sl = "send_length - max_data_prg st2"
          from step ex r1 obtain r2 st3 where
            nx: "program_next_loop dat ?b ?sl st2 = Some (r2, st3)"
            by (cases "program_next_loop dat ?b ?sl st2") auto
          have "?sl \<le> data_len st"
            using sl cap keep1 by simp
          with program_next_loop_frames_aux [OF nx, of "data_len st"] cap keep1
          obtain fs2 where
            fs2: "sent st3 = sent st2 @ fs2"
                 "\<forall>f\<in>set fs2. sized_by (max_data_prg st) (data_len st) f"
            and keep2: "max_data_prg st3 = max_data_prg st" "data_len st3 = data_len st"
            by auto
          show ?thesis
          proof (cases r2)
            case (Inl e)
            with step ex r1 nx have "y = (Inl e, st3)"
              by simp
            moreover from fs1 fs2 have "sent st3 = sent st @ (fs1 @ fs2)"
              "\<forall>f\<in>set (fs1 @ fs2). sized_by (max_data_prg st) (data_len st) f"
              by auto
            ultimately show ?thesis
              using keep2 by (simp del: append_assoc)
          next
            case r2: (Inr b')
            with step ex r1 nx have "f dat b' st3 = Some y"
              by simp
            from 1(1) [OF this] cap keep2
            obtain fs3 where
              fs3: "sent (snd y) = sent st3 @ fs3"
                   "\<forall>f\<in>set fs3. sized_by (max_data_prg st) (data_len st) f"
              and keep3: "max_data_prg (snd y) = max_data_prg st"
                         "data_len (snd y) = data_len st"
              by auto
            from fs1 fs2 fs3 have "sent (snd y) = sent st @ (fs1 @ fs2 @ fs3)"
              "\<forall>f\<in>set (fs1 @ fs2 @ fs3). sized_by (max_data_prg st) (data_len st) f"
              by auto
            with keep3 show ?thesis
              by blast
          qed
        qed
      qed
    qed
  qed
qed

lemma execute_reset_frames:
  assumes "execute PROGRAM_RESET kw st = Some (r, st')"
  shows "(\<exists>fs. sent st' = sent st @ fs \<and> (\<forall>f\<in>set fs. data f ! 0 = 0xCF))"
proof -
  have "build_msg PROGRAM_RESET kw st = Inr [0xCF, 0, 0, 0, 0, 0, 0, 0]"
    by (simp add: build_msg_def replicate_8 set_byte_def)
  with assms have
    "send_can_msg \<lparr>arbitration_id = tx_id st, data = [0xCF, 0, 0, 0, 0, 0, 0, 0]\<rparr> True st =
       Some (r, st')"
    by (simp add: execute_def)
  from send_can_msg_sent [OF this] obtain fs where
    fs: "sent st' = sent st @ fs"
        "set fs \<subseteq> {\<lparr>arbitration_id = tx_id st, data = [0xCF, 0, 0, 0, 0, 0, 0, 0]\<rparr>}"
    by blast
  from fs(2) have "\<forall>f\<in>set fs. data f ! 0 = 0xCF"
    by fastforce
  with fs(1) show ?thesis
    by blast
qed

lemma program_frames:
  assumes run: "program dat st = Some (res, st')" and cap: "0 \<le> max_data_prg st"
  shows "\<forall>f\<in>set (new_frames st st').
           data f ! 0 \<noteq> 0xCF \<longrightarrow> sized_by (max_data_prg st) (data_len st) f"
proof -
  let ?st0 = "py_print ''flashing new firmware...'' st"
  have st0: "sent ?st0 = sent st" "max_data_prg ?st0 = max_data_prg st"
            "data_len ?st0 = data_len st"
    by (simp_all add: py_print_def)
  from run obtain r1 st1 where lp: "program_loop dat 0 ?st0 = Some (r1, st1)"
    by (cases "program_loop dat 0 ?st0") (auto simp: program_def)
  from program_loop_frames_aux [OF lp] cap st0
  obtain fs1 where
    fs1: "sent st1 = sent st @ fs1" "\<forall>f\<in>set fs1. sized_by (max_data_prg st) (data_len st) f"
    by auto
  show ?thesis
  proof (cases r1)
    case (Inl e)
    with run lp have "st' = st1"
      by (simp add: program_def)
    with fs1 show ?thesis
      by (simp add: new_frames_def)
  next
    case r1: (Inr b)
    obtain r2 st2 where pb: "print_progress_bar b (int (length dat)) st1 = (r2, st2)"
      by (cases "print_progress_bar b (int (length dat)) st1")
    from print_progress_bar_keeps [OF pb] have st2: "sent st2 = sent st1"
      by simp
    show ?thesis
    proof (cases r2)
      case (Inl e)
      with run lp r1 pb have "st' = st2"
        by (simp add: program_def)
      with fs1 st2 show ?thesis
        by (simp add: new_frames_def)
    next
      case r2: (Inr u)
      from run lp r1 pb r2 obtain r3 where
        ex: "execute PROGRAM_RESET no_kwargs st2 = Some (r3, st')"
        by (cases "execute PROGRAM_RESET no_kwargs st2")
           (auto simp: program_def split: sum.splits)
      from execute_reset_frames [OF ex] obtain fs2 where
        fs2: "sent st' = sent st2 @ fs2" "\<forall>f\<in>set fs2. data f ! 0 = 0xCF"
        by auto
      from fs1 st2 fs2 have "new_frames st st' = fs1 @ fs2"
        by (simp add: new_frames_def)
      with fs1 fs2 show ?thesis
        by auto
    qed
  qed
qed



lemma limits_stored:
  "(execute CONNECT kw st = Some (Inr (Some r), st') \<longrightarrow>
      5 < length (data r) \<and> max_data st' = data r ! 4 * 256 + data r ! 5
      \<and> max_data_prg st' = max_data_prg st \<and> data_len st' = data_len st)
   \<and> (execute PROGRAM_START kw st = Some (Inr (Some r), st') \<longrightarrow>
      4 < length (data r) \<and> max_data_prg st' = data r ! 3 - 2
      \<and> data_len st' = (data r ! 3 - 2) * data r ! 4
      \<and> max_data st' = max_data st)"
  by (auto simp: execute_def Let_def byte_at_def push_bit_eq_mult
        split: sum.splits option.splits if_splits
        dest: send_can_msg_fields)

text \<open>
  C7, as amended: a CONNECT success response stores as the generic transfer limit the
  16-bit value of response bytes 4 and 5, byte 4 most significant; a PROGRAM_START
  success response stores byte 3 minus 2 as the per-transfer payload capacity for
  programming and (byte 3 minus 2) times byte 4 as the length of one logical unit, byte
  4 itself not being stored. Of these values the two programming values drive the
  later sizing decisions of \<^verbatim>\<open>program\<close>: in every PROGRAM and PROGRAM_NEXT frame it has
  sent when it returns, byte 1 is at most the unit length and the payload lies within
  the capacity (a capacity of at least 0). The generic transfer limit drives none: it
  is never read, and \<^verbatim>\<open>program\<close> does the same whatever its value.
\<close>

theorem negotiated_limits_stored:
  "(execute CONNECT kw st = Some (Inr (Some r), st') \<longrightarrow>
      5 < length (data r) \<and> max_data st' = data r ! 4 * 256 + data r ! 5
      \<and> max_data_prg st' = max_data_prg st \<and> data_len st' = data_len st)
   \<and> (execute PROGRAM_START kw st = Some (Inr (Some r), st') \<longrightarrow>
      4 < length (data r) \<and> max_data_prg st' = data r ! 3 - 2
      \<and> data_len st' = (data r ! 3 - 2) * data r ! 4
      \<and> max_data st' = max_data st)
   \<and> program dat (st\<lparr>max_data := x\<rparr>) =
        map_option (\<lambda>(res, s). (res, s\<lparr>max_data := x\<rparr>)) (program dat st)
   \<and> (program dat st = Some (res, st'') \<longrightarrow> 0 \<le> max_data_prg st \<longrightarrow>
        (\<forall>f\<in>set (new_frames st st'').
           data f ! 0 \<noteq> 0xCF \<longrightarrow> sized_by (max_data_prg st) (data_len st) f))"
  using limits_stored [where kw = kw and st = st and r = r and st' = st']
    program_max_data [where dat = dat and st = st and x = x]
    program_frames [where dat = dat and st = st and res = res and st' = st'']
  by blast

theorem negotiated_limits_stored_witness:
  "(\<exists>st'. execute CONNECT no_kwargs (XCPFlash 1 2 0 (replies [ack])) = Some (Inr (Some ack), st')
          \<and> max_data st' = 0x0208 \<and> max_data_prg st' = 0 \<and> data_len st' = 0)
   \<and> (\<exists>st'. execute PROGRAM_START no_kwargs (XCPFlash 1 2 0 (replies [ack])) =
              Some (Inr (Some ack), st')
          \<and> max_data_prg st' = 6 \<and> data_len st' = 12 \<and> max_data st' = 8)
   \<and> (\<exists>st'. program [1, 2, 3, 4, 5, 6, 7, 8, 9, 10, 11, 12]
               ((XCPFlash 1 2 0 (always ack))\<lparr>data_len := 12, max_data_prg := 6\<rparr>) =
              Some (Inr (), st')
          \<and> new_frames ((XCPFlash 1 2 0 (always ack))\<lparr>data_len := 12, max_data_prg := 6\<rparr>) st' =
              [\<lparr>arbitration_id = 1, data = [0xD0, 12, 1, 2, 3, 4, 5, 6]\<rparr>,
               \<lparr>arbitration_id = 1, data = [0xCA, 6, 7, 8, 9, 10, 11, 12]\<rparr>,
               \<lparr>arbitration_id = 1, data = [0xCF, 0, 0, 0, 0, 0, 0, 0]\<rparr>]
          \<and> sized_by 6 12 \<lparr>arbitration_id = 1, data = [0xD0, 12, 1, 2, 3, 4, 5, 6]\<rparr>
          \<and> sized_by 6 12 \<lparr>arbitration_id = 1, data = [0xCA, 6, 7, 8, 9, 10, 11, 12]\<rparr>)"
proof -
  let ?S = "(XCPFlash 1 2 0 (always ack))\<lparr>data_len := 12, max_data_prg := 6\<rparr>"
  let ?d = "[1, 2, 3, 4, 5, 6, 7, 8, 9, 10, 11, 12] :: int list"
  let ?f1 = "\<lparr>arbitration_id = 1, data = [0xD0, 12, 1, 2, 3, 4, 5, 6]\<rparr>"
  let ?f2 = "\<lparr>arbitration_id = 1, data = [0xCA, 6, 7, 8, 9, 10, 11, 12]\<rparr>"
  let ?f3 = "\<lparr>arbitration_id = 1, data = [0xCF, 0, 0, 0, 0, 0, 0, 0]\<rparr>"
  have "map_option fst (execute CONNECT no_kwargs (XCPFlash 1 2 0 (replies [ack]))) =
          Some (Inr (Some ack))"
    by code_simp
  then obtain st1 where
    c: "execute CONNECT no_kwargs (XCPFlash 1 2 0 (replies [ack])) = Some (Inr (Some ack), st1)"
    by (cases "execute CONNECT no_kwargs (XCPFlash 1 2 0 (replies [ack]))") auto
  have "map_option fst (execute PROGRAM_START no_kwargs (XCPFlash 1 2 0 (replies [ack]))) =
          Some (Inr (Some ack))"
    by code_simp
  then obtain st2 where
    p: "execute PROGRAM_START no_kwargs (XCPFlash 1 2 0 (replies [ack])) =
          Some (Inr (Some ack), st2)"
    by (cases "execute PROGRAM_START no_kwargs (XCPFlash 1 2 0 (replies [ack]))") auto
  from c negotiated_limits_stored
         [where kw = no_kwargs and st = "XCPFlash 1 2 0 (replies [ack])" and r = ack and st' = st1]
  have one: "max_data st1 = 0x0208 \<and> max_data_prg st1 = 0 \<and> data_len st1 = 0"
    by (simp add: ack_def XCPFlash_def)
  from p negotiated_limits_stored
         [where kw = no_kwargs and st = "XCPFlash 1 2 0 (replies [ack])" and r = ack and st' = st2]
  have two: "max_data_prg st2 = 6 \<and> data_len st2 = 12 \<and> max_data st2 = 8"
    by (simp add: ack_def XCPFlash_def)
  have ev: "(case program ?d ?S of
               Some (res, st') \<Rightarrow> res = Inr () \<and> new_frames ?S st' = [?f1, ?f2, ?f3]
             | None \<Rightarrow> False)"
    by code_simp
  obtain res st3 where run0: "program ?d ?S = Some (res, st3)"
    using ev by (cases "program ?d ?S") auto
  have run: "program ?d ?S = Some (Inr (), st3)" and nf: "new_frames ?S st3 = [?f1, ?f2, ?f3]"
    using ev run0 by simp_all
  from run negotiated_limits_stored
         [where st = ?S and dat = ?d and res = "Inr ()" and ?st'' = st3]
  have "\<forall>f\<in>set (new_frames ?S st3). data f ! 0 \<noteq> 0xCF \<longrightarrow> sized_by 6 12 f"
    by (simp add: XCPFlash_def)
  then have "sized_by 6 12 ?f1" "sized_by 6 12 ?f2"
    by (simp_all add: nf)
  with c p one two run nf show ?thesis
    by blast
qed

text \<open>
  C7 as stated fails twice. After a PROGRAM_START response with byte 3 = 8 and byte 4 = 2
  the stored payload capacity is 6, not 8, and what is stored beside it is 12, not 2.
  And the generic transfer limit drives no sizing decision: with 8 or with 520 stored,
  \<^verbatim>\<open>program\<close> sends the same frames, prints the same and ends the same.
\<close>

theorem negotiated_limits_counterexample:
  "(case execute PROGRAM_START no_kwargs (XCPFlash 1 2 0 (replies [ack])) of
      Some (res, st) \<Rightarrow>
        res = Inr (Some ack) \<and> data ack ! 3 = 8 \<and> data ack ! 4 = 2
        \<and> max_data_prg st = 6 \<and> data_len st = 12
    | None \<Rightarrow> False)
   \<and> (case (program [1, 2, 3, 4, 5, 6, 7, 8, 9, 10, 11, 12]
               ((XCPFlash 1 2 0 (always ack))
                  \<lparr>data_len := 12, max_data_prg := 6, max_data := 8\<rparr>),
             program [1, 2, 3, 4, 5, 6, 7, 8, 9, 10, 11, 12]
               ((XCPFlash 1 2 0 (always ack))
                  \<lparr>data_len := 12, max_data_prg := 6, max_data := 520\<rparr>)) of
         (Some (res1, st1), Some (res2, st2)) \<Rightarrow>
           res1 = res2 \<and> sent st1 = sent st2 \<and> stdout st1 = stdout st2
           \<and> max_data st1 = 8 \<and> max_data st2 = 520
       | _ \<Rightarrow> False)"
  by (rule conjI; code_simp)

section \<open>A call that never disconnects\<close>

lemma send_can_msg_rx:
  "send_can_msg m w st = Some (r, st') \<Longrightarrow> rx st' = rx st \<and> rx_id st' = rx_id st"
  using send_can_msg_fields(5,6) [of m w st r st'] by simp

lemma execute_rx:
  "execute command kw st = Some (r, st') \<Longrightarrow> rx st' = rx st \<and> rx_id st' = rx_id st"
  by (auto simp: execute_def Let_def split: sum.splits option.splits if_splits
        dest!: send_can_msg_rx)

lemma connect_rx:
  "connect st = Some (r, st') \<Longrightarrow> rx st' = rx st \<and> rx_id st' = rx_id st"
  by (auto simp: connect_def py_print_def split: option.splits sum.splits if_splits
        dest!: execute_rx)

lemma clear_rx:
  "clear start_addr len st = Some (r, st') \<Longrightarrow> rx st' = rx st \<and> rx_id st' = rx_id st"
  by (auto simp: clear_def py_print_def split: option.splits sum.splits
        dest!: execute_rx)

lemma program_firmware13_stuck:
  assumes "rx st = always ack" and "rx_id st = 2"
    and "max_data_prg st = 6" and "data_len st = 12"
  shows "program firmware13 st = None"
proof -
  have "program_loop firmware13 0 (py_print ''flashing new firmware...'' st) = None"
    by (rule program_loop_0) (use assms in \<open>simp_all add: py_print_def\<close>)
  then show ?thesis
    by (simp add: program_def)
qed

text \<open>
  C8: the claim asks that every call of \<^verbatim>\<open>__call__\<close> invokes \<^verbatim>\<open>disconnect\<close> exactly once.
  With the 13-byte firmware on a device that answers every poll with a positive
  response (and advertises capacity 8 and count 2), \<^verbatim>\<open>connect\<close> and \<^verbatim>\<open>clear\<close> succeed and
  \<^verbatim>\<open>program\<close> never returns, so the \<^verbatim>\<open>try\<close> block never ends, the \<^verbatim>\<open>finally\<close> block is
  never entered and \<^verbatim>\<open>disconnect\<close> is invoked zero times.
\<close>

theorem flash_call_never_disconnects:
  "flash_stages 0x8000 firmware13 (XCPFlash 1 2 0 (always ack)) = None
   \<and> flash_call 0x8000 firmware13 (XCPFlash 1 2 0 (always ack)) = None"
proof -
  have ev: "(case connect (XCPFlash 1 2 0 (always ack)) of
           Some (Inr u, st1) \<Rightarrow>
             (case clear 0x8000 13 st1 of
                Some (Inr u', st2) \<Rightarrow> max_data_prg st2 = 6 \<and> data_len st2 = 12
              | _ \<Rightarrow> False)
         | _ \<Rightarrow> False)"
    by code_simp
  obtain r1 st1 where c0: "connect (XCPFlash 1 2 0 (always ack)) = Some (r1, st1)"
    using ev by (cases "connect (XCPFlash 1 2 0 (always ack))") auto
  have r1: "r1 = Inr ()"
    using ev c0 by (cases r1) auto
  obtain r2 st2 where e0: "clear 0x8000 13 st1 = Some (r2, st2)"
    using ev c0 r1 by (cases "clear 0x8000 13 st1") auto
  have r2: "r2 = Inr ()"
    using ev c0 r1 e0 by (cases r2) auto
  have neg: "max_data_prg st2 = 6" "data_len st2 = 12"
    using ev c0 r1 e0 r2 by simp_all
  have "rx st2 = always ack" "rx_id st2 = 2"
    using connect_rx [OF c0] clear_rx [OF e0] by (simp_all add: XCPFlash_def)
  then have "program firmware13 st2 = None"
    using neg by (intro program_firmware13_stuck)
  then have "flash_stages 0x8000 firmware13 (XCPFlash 1 2 0 (always ack)) = None"
    using c0 r1 e0 r2 by (simp add: flash_stages_def firmware13_def)
  then show ?thesis
    by (simp add: flash_call_def)
qed

section \<open>Empty firmware\<close>

lemma program_loop_empty: "program_loop [] 0 st = Some (Inr 0, st)"
  by (subst program_loop.simps) simp

lemma program_empty:
  "program [] st = Some (Inl ZeroDivisionError, py_print ''flashing new firmware...'' st)"
  by (simp add: program_def program_loop_empty print_progress_bar_def float_ok_def)

lemma flash_finally_pending:
  "flash_finally (Some e) st \<noteq> Some (Inr (), st')"
  by (auto simp: flash_finally_def
        split: option.splits sum.splits py_exc.splits prod.splits)

text \<open>
  C10, as amended: \<^verbatim>\<open>print_progress_bar(iteration, total)\<close> with \<^verbatim>\<open>total = 0\<close> raises
  ZeroDivisionError; \<^verbatim>\<open>program\<close> on an empty firmware reaches that call in its final
  progress report and ends with this exception; consequently, whenever \<^verbatim>\<open>connect\<close> and
  \<^verbatim>\<open>clear\<close> succeed, \<^verbatim>\<open>__call__\<close> with an empty firmware never completes normally.
\<close>

theorem empty_firmware_zero_division:
  "print_progress_bar iteration 0 st0 =
     (Inl (if float_ok iteration then ZeroDivisionError else OverflowError), st0)
   \<and> program [] st2 = Some (Inl ZeroDivisionError, py_print ''flashing new firmware...'' st2)
   \<and> (connect st = Some (Inr (), st1) \<longrightarrow> clear start_addr 0 st1 = Some (Inr (), st2) \<longrightarrow>
        (\<forall>st'. flash_call start_addr [] st \<noteq> Some (Inr (), st')))"
proof (intro conjI impI allI)
  show "print_progress_bar iteration 0 st0 =
          (Inl (if float_ok iteration then ZeroDivisionError else OverflowError), st0)"
    by (simp add: print_progress_bar_def float_ok_def)
  show "program [] st2 = Some (Inl ZeroDivisionError, py_print ''flashing new firmware...'' st2)"
    by (rule program_empty)
next
  fix st'
  assume c: "connect st = Some (Inr (), st1)"
    and e: "clear start_addr 0 st1 = Some (Inr (), st2)"
  have "flash_stages start_addr [] st =
          Some (Inl ZeroDivisionError, py_print ''flashing new firmware...'' st2)"
    using c e by (simp add: flash_stages_def program_empty)
  then have "flash_call start_addr [] st =
               flash_finally (Some ZeroDivisionError)
                 (py_print ''flashing new firmware...'' st2)"
    by (simp add: flash_call_def flash_except_def)
  then show "flash_call start_addr [] st \<noteq> Some (Inr (), st')"
    by (simp add: flash_finally_pending)
qed

theorem empty_firmware_zero_division_witness:
  "\<exists>st1 st2.
      connect (XCPFlash 1 2 0 (always ack)) = Some (Inr (), st1)
      \<and> clear 0x8000 0 st1 = Some (Inr (), st2)
      \<and> (\<forall>st'. flash_call 0x8000 [] (XCPFlash 1 2 0 (always ack)) \<noteq> Some (Inr (), st'))"
proof -
  have "(case connect (XCPFlash 1 2 0 (always ack)) of
           Some (Inr u, st1) \<Rightarrow>
             (case clear 0x8000 0 st1 of Some (Inr u', st2) \<Rightarrow> True | _ \<Rightarrow> False)
         | _ \<Rightarrow> False)"
    by code_simp
  then have ev: "(case connect (XCPFlash 1 2 0 (always ack)) of
           Some (Inr u, st1) \<Rightarrow>
             (case clear 0x8000 0 st1 of Some (Inr u', st2) \<Rightarrow> True | _ \<Rightarrow> False)
         | _ \<Rightarrow> False)" .
  obtain r1 st1 where c0: "connect (XCPFlash 1 2 0 (always ack)) = Some (r1, st1)"
    using ev by (cases "connect (XCPFlash 1 2 0 (always ack))") auto
  have r1: "r1 = Inr ()"
    using ev c0 by (cases r1) auto
  obtain r2 st2 where e0: "clear 0x8000 0 st1 = Some (r2, st2)"
    using ev c0 r1 by (cases "clear 0x8000 0 st1") auto
  have r2: "r2 = Inr ()"
    using ev c0 r1 e0 by (cases r2) auto
  have c: "connect (XCPFlash 1 2 0 (always ack)) = Some (Inr (), st1)"
    and e: "clear 0x8000 0 st1 = Some (Inr (), st2)"
    using c0 r1 e0 r2 by simp_all
  from empty_firmware_zero_division
         [where st = "XCPFlash 1 2 0 (always ack)" and ?st1.0 = st1 and ?st2.0 = st2
            and start_addr = "0x8000"]
       c e
  have "\<forall>st'. flash_call 0x8000 [] (XCPFlash 1 2 0 (always ack)) \<noteq> Some (Inr (), st')"
    by blast
  with c e show ?thesis
    by blast
qed

text \<open>
  C10 as stated fails: on a silent transport \<^verbatim>\<open>connect\<close> times out, \<^verbatim>\<open>program\<close> is never
  reached, both timeouts are reported and \<^verbatim>\<open>__call__\<close> with an empty firmware returns
  normally.
\<close>

theorem empty_firmware_counterexample:
  "map_option fst (flash_call 0x8000 [] (XCPFlash 1 2 0 silent)) = Some (Inr ())
   \<and> fst (print_progress_bar (2 ^ 1024) 0 (XCPFlash 1 2 0 silent)) = Inl OverflowError"
  by (rule conjI, code_simp, simp add: print_progress_bar_def float_ok_def)

end
